theory Spec2Isabelle
  imports Main "HOL-Library.Word"
begin

section \<open>JavaScript values used by the server\<close>

text \<open>
  A JavaScript string is a sequence of UTF-16 code units; a Buffer is a sequence of
  bytes. \<open>js\<close> turns an ASCII literal of the source into its code units.
\<close>

type_synonym jschar = "16 word"
type_synonym jsstring = "jschar list"
type_synonym byte = "8 word"

definition js :: "string \<Rightarrow> jsstring" where
  "js s = map (\<lambda>c. of_nat (of_char c)) s"

text \<open>
  A value that may be \<open>undefined\<close> is an option. \<open>undefined\<close> and the empty string are
  falsy, so \<open>a || b\<close> is \<open>b\<close> exactly for those.
\<close>

definition truthy :: "jsstring option \<Rightarrow> bool" where
  "truthy v = (case v of None \<Rightarrow> False | Some s \<Rightarrow> s \<noteq> [])"

definition js_or :: "jsstring option \<Rightarrow> jsstring option \<Rightarrow> jsstring option" where
  "js_or a b = (if truthy a then a else b)"

section \<open>Configuration\<close>

text \<open>
  \<^verbatim>\<open>const SERVER_PASSWORD = process.env.SERVER_PASSWORD || 'ImageConnection_FOX';\<close>
  The argument is the environment variable, \<open>None\<close> when it is not set.
\<close>

definition SERVER_PASSWORD :: "jsstring option \<Rightarrow> jsstring" where
  "SERVER_PASSWORD env =
     (case js_or env (Some (js ''ImageConnection_FOX'')) of
        Some s \<Rightarrow> s
      | None \<Rightarrow> js ''ImageConnection_FOX'')"

definition PASSWORD_MAX_FAILURES :: nat where
  "PASSWORD_MAX_FAILURES = 5"

definition PASSWORD_LOCK_DURATION_MS :: nat where
  "PASSWORD_LOCK_DURATION_MS = 60 * 60 * 1000"

section \<open>Requests and responses\<close>

text \<open>
  The fields of an Express request that the handlers read. Times are
  \<^verbatim>\<open>Date.now()\<close> readings, milliseconds since the epoch.
\<close>

record uploaded_file =
  buffer :: "byte list"
  originalname :: "jsstring option"

record request =
  req_ip :: "jsstring option"
  remoteAddress :: "jsstring option"
  header_x_api_key :: "jsstring option"
  header_authorization :: "jsstring option"
  body_password :: "jsstring option"
  query_password :: "jsstring option"
  body_imageBase64 :: "jsstring option"
  body_image :: "jsstring option"
  body_name :: "jsstring option"
  params_name :: jsstring
  req_file :: "uploaded_file option"

text \<open>
  What a middleware does with a request: it answers with a status and a text, or it
  calls \<open>next()\<close>.
\<close>

datatype outcome = Send nat jsstring | Next

section \<open>The failed-password tracker\<close>

text \<open>
  \<^verbatim>\<open>const failedAttempts = new Map(); // ip -> {count, blockedUntil}\<close>
  The key is \<^verbatim>\<open>req.ip || req.connection.remoteAddress\<close>, which may be undefined.
\<close>

record entry =
  count :: nat
  blockedUntil :: "nat option"

type_synonym attempts = "jsstring option \<rightharpoonup> entry"

definition client_ip :: "request \<Rightarrow> jsstring option" where
  "client_ip req = js_or (req_ip req) (remoteAddress req)"

text \<open>
  \<^verbatim>\<open>entry && entry.blockedUntil && Date.now() < entry.blockedUntil\<close>:
  a number is truthy when it is not 0.
\<close>

definition is_blocked :: "nat \<Rightarrow> entry option \<Rightarrow> bool" where
  "is_blocked now e =
     (case e of
        None \<Rightarrow> False
      | Some en \<Rightarrow>
          (case blockedUntil en of
             None \<Rightarrow> False
           | Some b \<Rightarrow> b \<noteq> 0 \<and> now < b))"

text \<open>
  \<^verbatim>\<open>req.headers['x-api-key'] || req.body.password || req.query.password
     || req.headers['authorization']) || ''\<close>
\<close>

definition provided_password :: "request \<Rightarrow> jsstring" where
  "provided_password req =
     (case js_or (js_or (js_or (js_or (header_x_api_key req) (body_password req))
                               (query_password req))
                        (header_authorization req))
                 (Some [])
      of Some s \<Rightarrow> s | None \<Rightarrow> [])"

text \<open>
  \<open>requirePasswordForRequest pw t_check t_lock req fa\<close>: \<open>pw\<close> is the server password,
  \<open>t_check\<close> the clock reading of the block check and \<open>t_lock\<close> the one taken when a
  lock is set. The result is the tracker after the call and what the middleware did.
\<close>

definition requirePasswordForRequest ::
  "jsstring \<Rightarrow> nat \<Rightarrow> nat \<Rightarrow> request \<Rightarrow> attempts \<Rightarrow> attempts \<times> outcome" where
  "requirePasswordForRequest pw t_check t_lock req fa =
     (let ip = client_ip req in
      if is_blocked t_check (fa ip)
      then (fa, Send 429 (js ''Too many failed password attempts. Try later.''))
      else
        (let provided = provided_password req in
         if provided = [] \<or> provided \<noteq> pw
         then
           (let info = (case fa ip of Some e \<Rightarrow> e
                        | None \<Rightarrow> \<lparr>count = 0, blockedUntil = None\<rparr>);
                info1 = info\<lparr>count := count info + 1\<rparr>;
                info2 = (if count info1 \<ge> PASSWORD_MAX_FAILURES
                         then info1\<lparr>blockedUntil := Some (t_lock + PASSWORD_LOCK_DURATION_MS)\<rparr>
                         else info1)
            in (fa(ip \<mapsto> info2), Send 403 (js ''Forbidden: invalid password.'')))
         else (fa(ip := None), Next)))"

text \<open>
  The specification's names for the three results of a verification: the call went on
  (\<open>Allowed\<close>), was answered 403 (\<open>Denied\<close>) or was answered 429 (\<open>Blocked\<close>).
\<close>

datatype verdict = Allowed | Denied | Blocked

definition verdict_of :: "outcome \<Rightarrow> verdict option" where
  "verdict_of r =
     (case r of
        Next \<Rightarrow> Some Allowed
      | Send status body \<Rightarrow>
          (if status = 403 then Some Denied
           else if status = 429 then Some Blocked
           else None))"

text \<open>The failure count the tracker holds for a client: 0 when there is no entry.\<close>

definition failureCount :: "attempts \<Rightarrow> jsstring option \<Rightarrow> nat" where
  "failureCount fa ip = (case fa ip of None \<Rightarrow> 0 | Some e \<Rightarrow> count e)"

text \<open>The lock a client's entry holds: \<open>None\<close> when there is no entry or no lock.\<close>

definition lockOf :: "attempts \<Rightarrow> jsstring option \<Rightarrow> nat option" where
  "lockOf fa ip = (case fa ip of None \<Rightarrow> None | Some e \<Rightarrow> blockedUntil e)"

section \<open>Node's \<open>path\<close> module (POSIX)\<close>

text \<open>
  \<^verbatim>\<open>path.basename\<close> and \<^verbatim>\<open>path.join\<close> belong to Node, not to the repository; they
  are written out here as Node's POSIX implementation behaves. \<open>basename\<close> drops
  trailing separators and returns what follows the last separator left.
\<close>

definition slash :: jschar where
  "slash = 0x2F"

definition basename :: "jsstring \<Rightarrow> jsstring" where
  "basename p =
     (let q = dropWhile (\<lambda>c. c = slash) (rev p)
      in rev (takeWhile (\<lambda>c. c \<noteq> slash) q))"

fun split_on :: "'a \<Rightarrow> 'a list \<Rightarrow> 'a list list" where
  "split_on d [] = [[]]"
| "split_on d (c # cs) =
     (if c = d then [] # split_on d cs
      else (case split_on d cs of
              [] \<Rightarrow> [[c]]
            | s # ss \<Rightarrow> (c # s) # ss))"

fun intercalate :: "'a list \<Rightarrow> 'a list list \<Rightarrow> 'a list" where
  "intercalate sep [] = []"
| "intercalate sep [x] = x"
| "intercalate sep (x # y # ys) = x @ sep @ intercalate sep (y # ys)"

text \<open>
  One step of \<^verbatim>\<open>normalizeString\<close>: the segments kept so far are a stack, the last
  one on top. Empty segments and \<open>.\<close> are skipped; \<open>..\<close> removes the segment on top
  unless that is \<open>..\<close> itself, and is kept only where the path may rise above its start.
\<close>

definition normalize_step :: "bool \<Rightarrow> jsstring \<Rightarrow> jsstring list \<Rightarrow> jsstring list" where
  "normalize_step allowAboveRoot seg stack =
     (if seg = [] \<or> seg = js ''.'' then stack
      else if seg = js ''..'' then
        (case stack of
           [] \<Rightarrow> (if allowAboveRoot then [seg] else [])
         | seg' # rest \<Rightarrow>
             (if seg' \<noteq> js ''..'' then rest
              else if allowAboveRoot then seg # stack else stack))
      else seg # stack)"

definition normalize :: "jsstring \<Rightarrow> jsstring" where
  "normalize p =
     (if p = [] then js ''.''
      else
        (let isAbsolute = (hd p = slash);
             trailingSeparator = (last p = slash);
             segs = rev (fold (normalize_step (\<not> isAbsolute)) (split_on slash p) []);
             q = intercalate [slash] segs
         in if q = [] then
              (if isAbsolute then [slash]
               else if trailingSeparator then js ''./'' else js ''.'')
            else
              (let q' = (if trailingSeparator then q @ [slash] else q)
               in if isAbsolute then slash # q' else q')))"

definition path_join :: "jsstring \<Rightarrow> jsstring \<Rightarrow> jsstring" where
  "path_join a b =
     (let parts = filter (\<lambda>s. s \<noteq> []) [a, b]
      in if parts = [] then js ''.'' else normalize (intercalate [slash] parts))"

text \<open>
  \<^verbatim>\<open>const STORAGE_DIR = path.join(__dirname, 'storage');\<close>
  The argument is \<^verbatim>\<open>__dirname\<close>.
\<close>

definition STORAGE_DIR :: "jsstring \<Rightarrow> jsstring" where
  "STORAGE_DIR dirname = path_join dirname (js ''storage'')"

section \<open>sanitizeFileName\<close>

text \<open>
  The characters \<^verbatim>\<open>\s\<close> matches in a JavaScript regular expression: the white space
  and line terminator code points of ECMAScript.
\<close>

definition is_space :: "jschar \<Rightarrow> bool" where
  "is_space c =
     ((0x09 \<le> c \<and> c \<le> 0x0D) \<or> c = 0x20 \<or> c = 0xA0 \<or> c = 0x1680
      \<or> (0x2000 \<le> c \<and> c \<le> 0x200A) \<or> c = 0x2028 \<or> c = 0x2029 \<or> c = 0x202F
      \<or> c = 0x205F \<or> c = 0x3000 \<or> c = 0xFEFF)"

text \<open>The characters of the class \<^verbatim>\<open>[a-zA-Z0-9_\-\.]\<close>.\<close>

definition is_safe :: "jschar \<Rightarrow> bool" where
  "is_safe c =
     ((0x61 \<le> c \<and> c \<le> 0x7A) \<or> (0x41 \<le> c \<and> c \<le> 0x5A) \<or> (0x30 \<le> c \<and> c \<le> 0x39)
      \<or> c = 0x5F \<or> c = 0x2D \<or> c = 0x2E)"

text \<open>\<^verbatim>\<open>base.replace(/\s+/g, '_')\<close>: every maximal run of white space becomes one underscore.\<close>

function replace_spaces :: "jsstring \<Rightarrow> jsstring" where
  "replace_spaces [] = []"
| "replace_spaces (c # cs) =
     (if is_space c then 0x5F # replace_spaces (dropWhile is_space cs)
      else c # replace_spaces cs)"
  by pat_completeness auto
termination
  by (relation "measure length") (auto simp: less_Suc_eq_le length_dropWhile_le)

definition sanitizeFileName :: "jsstring \<Rightarrow> jsstring" where
  "sanitizeFileName name =
     (let base = basename name;
          base1 = replace_spaces base;
          base2 = filter is_safe base1
      in if base2 = [] then js ''file'' else base2)"

section \<open>Buffers as text\<close>

text \<open>
  \<^verbatim>\<open>buffer.toString('hex', start, end)\<close>: two lower-case hexadecimal digits for each
  byte of the slice; a slice past the end of the buffer is cut at the end.
\<close>

definition hexdigit :: "nat \<Rightarrow> jschar" where
  "hexdigit n = (if n < 10 then of_nat (48 + n) else of_nat (87 + n))"

definition hex_byte :: "byte \<Rightarrow> jsstring" where
  "hex_byte b = [hexdigit (unat b div 16), hexdigit (unat b mod 16)]"

definition toString_hex :: "byte list \<Rightarrow> nat \<Rightarrow> nat \<Rightarrow> jsstring" where
  "toString_hex buf start stop = concat (map hex_byte (take (stop - start) (drop start buf)))"

definition startsWith :: "jsstring \<Rightarrow> jsstring \<Rightarrow> bool" where
  "startsWith s p = (take (length p) s = p)"

text \<open>\<^verbatim>\<open>buffer.toString('base64')\<close>: the standard alphabet, padded with \<open>=\<close>.\<close>

definition b64char :: "nat \<Rightarrow> jschar" where
  "b64char n =
     (if n < 26 then of_nat (65 + n)
      else if n < 52 then of_nat (71 + n)
      else if n < 62 then of_nat (n - 4)
      else if n = 62 then 0x2B else 0x2F)"

fun toString_base64 :: "byte list \<Rightarrow> jsstring" where
  "toString_base64 [] = []"
| "toString_base64 [x] =
     [b64char (unat x div 4), b64char (unat x mod 4 * 16), 0x3D, 0x3D]"
| "toString_base64 [x, y] =
     [b64char (unat x div 4), b64char (unat x mod 4 * 16 + unat y div 16),
      b64char (unat y mod 16 * 4), 0x3D]"
| "toString_base64 (x # y # z # rest) =
     [b64char (unat x div 4), b64char (unat x mod 4 * 16 + unat y div 16),
      b64char (unat y mod 16 * 4 + unat z div 64), b64char (unat z mod 64)]
     @ toString_base64 rest"

text \<open>\<^verbatim>\<open>`${Date.now()}`\<close>: a non-negative integer in decimal.\<close>

fun decimal :: "nat \<Rightarrow> jsstring" where
  "decimal n =
     (if n < 10 then [of_nat (48 + n)]
      else decimal (n div 10) @ [of_nat (48 + n mod 10)])"

declare decimal.simps [simp del]

section \<open>imageBufferToPixelJSON\<close>

text \<open>
  What \<^verbatim>\<open>PNG.sync.read\<close> (pngjs) and \<^verbatim>\<open>jpeg.decode\<close> (jpeg-js) return: the size and
  the RGBA bytes. The two decoders are libraries, so the functions below take them as
  arguments; a decoder that throws returns \<open>Inl\<close> with the error's message.
\<close>

record raw_image =
  img_width :: nat
  img_height :: nat
  img_data :: "byte list"

type_synonym decoder = "byte list \<Rightarrow> jsstring + raw_image"

text \<open>A read past the end of a buffer gives \<open>undefined\<close>.\<close>

definition at_index :: "'a list \<Rightarrow> nat \<Rightarrow> 'a option" where
  "at_index xs i = (if i < length xs then Some (xs ! i) else None)"

record pixel =
  r :: "byte option"
  g :: "byte option"
  b :: "byte option"
  a :: "byte option"

record pixel_image =
  width :: nat
  height :: nat
  pixels :: "pixel list"

text \<open>
  \<^verbatim>\<open>for (let i = 0; i < data.length; i += 4) pixels.push({r: data[i], ...})\<close>
\<close>

function pixel_loop :: "byte list \<Rightarrow> nat \<Rightarrow> pixel list \<Rightarrow> pixel list" where
  "pixel_loop d i acc =
     (if i < length d
      then pixel_loop d (i + 4)
             (acc @ [\<lparr>r = at_index d i, g = at_index d (i + 1),
                      b = at_index d (i + 2), a = at_index d (i + 3)\<rparr>])
      else acc)"
  by pat_completeness auto
termination
  by (relation "measure (\<lambda>(d, i, acc). length d - i)") auto

declare pixel_loop.simps [simp del]

text \<open>
  The errors a handler can catch: the one \<open>imageBufferToPixelJSON\<close> throws itself, one
  thrown by a decoder, and one thrown by the file system. \<open>error_message\<close> is
  \<^verbatim>\<open>err.message\<close>.
\<close>

datatype error = UnsupportedFileType | CodecError jsstring | FsError jsstring

definition error_message :: "error \<Rightarrow> jsstring" where
  "error_message e =
     (case e of
        UnsupportedFileType \<Rightarrow> js ''Unsupported file type (not PNG/JPEG)''
      | CodecError m \<Rightarrow> m
      | FsError m \<Rightarrow> m)"

definition to_pixel_image :: "raw_image \<Rightarrow> pixel_image" where
  "to_pixel_image raw =
     \<lparr>width = img_width raw, height = img_height raw,
      pixels = pixel_loop (img_data raw) 0 []\<rparr>"

definition imageBufferToPixelJSON ::
  "decoder \<Rightarrow> decoder \<Rightarrow> byte list \<Rightarrow> error + pixel_image" where
  "imageBufferToPixelJSON png_read jpeg_decode buf =
     (let header8 = toString_hex buf 0 8;
          isPNG = (header8 = js ''89504e470d0a1a0a'');
          header4 = toString_hex buf 0 4;
          isJPEG = startsWith header4 (js ''ffd8ff'')
      in if \<not> isPNG \<and> \<not> isJPEG then Inl UnsupportedFileType
         else if isPNG then
           (case png_read buf of
              Inl m \<Rightarrow> Inl (CodecError m)
            | Inr png \<Rightarrow> Inr (to_pixel_image png))
         else
           (case jpeg_decode buf of
              Inl m \<Rightarrow> Inl (CodecError m)
            | Inr raw \<Rightarrow> Inr (to_pixel_image raw)))"

text \<open>The two signatures as bytes.\<close>

definition PNG_MAGIC :: "byte list" where
  "PNG_MAGIC = [0x89, 0x50, 0x4E, 0x47, 0x0D, 0x0A, 0x1A, 0x0A]"

definition JPEG_MAGIC :: "byte list" where
  "JPEG_MAGIC = [0xFF, 0xD8, 0xFF]"

text \<open>The two bytes the \<^verbatim>\<open>/upload\<close> of \<^verbatim>\<open>index.js\<close> looks for.\<close>

definition JPEG_MAGIC2 :: "byte list" where
  "JPEG_MAGIC2 = [0xFF, 0xD8]"

section \<open>Stored documents and the file system\<close>

text \<open>
  The JSON documents the handlers write: the decoded record of \<^verbatim>\<open>/uploadJson\<close>, the
  raw record of \<^verbatim>\<open>/upload\<close> and the bare record of the earlier \<^verbatim>\<open>/upload\<close> of
  \<^verbatim>\<open>index.js\<close>.
\<close>

datatype doc =
    PixelDoc jsstring jsstring jsstring nat nat "pixel list"
  | RawDoc jsstring jsstring jsstring jsstring
  | BareDoc nat nat "pixel list"

text \<open>The fields \<open>width\<close>, \<open>height\<close> and \<open>pixels\<close> of a document, where it has them.\<close>

definition doc_width :: "doc \<Rightarrow> nat option" where
  "doc_width d =
     (case d of PixelDoc fn orig up w h ps \<Rightarrow> Some w
      | RawDoc fn orig up b64 \<Rightarrow> None
      | BareDoc w h ps \<Rightarrow> Some w)"

definition doc_height :: "doc \<Rightarrow> nat option" where
  "doc_height d =
     (case d of PixelDoc fn orig up w h ps \<Rightarrow> Some h
      | RawDoc fn orig up b64 \<Rightarrow> None
      | BareDoc w h ps \<Rightarrow> Some h)"

definition doc_pixels :: "doc \<Rightarrow> pixel list option" where
  "doc_pixels d =
     (case d of PixelDoc fn orig up w h ps \<Rightarrow> Some ps
      | RawDoc fn orig up b64 \<Rightarrow> None
      | BareDoc w h ps \<Rightarrow> Some ps)"

text \<open>
  The file system as the handlers see it through fs-extra: a path names a directory, a
  file holding a JSON document, or nothing. Reading fails on a directory and on a
  missing path. The storage directory is made at start-up
  (\<^verbatim>\<open>fs.ensureDirSync(STORAGE_DIR)\<close>).
\<close>

datatype node = Dir | File doc

type_synonym files = "jsstring \<rightharpoonup> node"

definition pathExists :: "files \<Rightarrow> jsstring \<Rightarrow> bool" where
  "pathExists fs p = (fs p \<noteq> None)"

definition readJson :: "files \<Rightarrow> jsstring \<Rightarrow> error + doc" where
  "readJson fs p =
     (case fs p of
        None \<Rightarrow> Inl (FsError (js ''ENOENT: no such file or directory''))
      | Some Dir \<Rightarrow> Inl (FsError (js ''EISDIR: illegal operation on a directory''))
      | Some (File d) \<Rightarrow> Inr d)"

text \<open>
  A file name is limited to \<open>NAME_MAX\<close> bytes (255 on Linux). Node hands a path to the
  system in UTF-8: a code unit below \<open>0x80\<close> is one byte, one below \<open>0x800\<close> two, a
  surrogate pair four, any other code unit, a lone surrogate included, three.
\<close>

definition NAME_MAX :: nat where
  "NAME_MAX = 255"

definition unit_bytes :: "jschar \<Rightarrow> nat" where
  "unit_bytes c = (if c < 0x80 then 1 else if c < 0x800 then 2 else 3)"

fun utf8_length :: "jsstring \<Rightarrow> nat" where
  "utf8_length [] = 0"
| "utf8_length [c] = unit_bytes c"
| "utf8_length (c # c' # cs) =
     (if 0xD800 \<le> c \<and> c \<le> 0xDBFF \<and> 0xDC00 \<le> c' \<and> c' \<le> 0xDFFF
      then 4 + utf8_length cs
      else unit_bytes c + utf8_length (c' # cs))"

text \<open>
  \<^verbatim>\<open>fs.writeJson\<close>: the write is refused with \<open>ENAMETOOLONG\<close> when the file name, the
  last segment of the path, is longer than \<open>NAME_MAX\<close> bytes, and with \<open>EISDIR\<close> when
  the path is a directory; otherwise the file holds the document afterwards.
\<close>

definition writeJson :: "files \<Rightarrow> jsstring \<Rightarrow> doc \<Rightarrow> error + files" where
  "writeJson fs p d =
     (if NAME_MAX < utf8_length (basename p)
      then Inl (FsError (js ''ENAMETOOLONG: name too long''))
      else
        (case fs p of
           Some Dir \<Rightarrow> Inl (FsError (js ''EISDIR: illegal operation on a directory''))
         | _ \<Rightarrow> Inr (fs(p \<mapsto> File d))))"

section \<open>The routes\<close>

text \<open>
  The server's state is the failed-password tracker and the files. A handler gets the
  configuration, the clock readings it takes and the request, and returns the state
  after the request and the response. The rate limiters are express-rate-limit
  middlewares in front of the handlers; a handler runs for the requests they let pass.
\<close>

record server =
  failedAttempts :: attempts
  storage :: files

record config =
  env_password :: "jsstring option"
  dirname :: jsstring

record clock =
  t_check :: nat
  t_lock :: nat
  t_name :: nat
  iso :: jsstring

datatype response =
    Text nat jsstring
  | JsonError nat jsstring
  | JsonSuccess jsstring
  | JsonDoc doc

text \<open>\<^verbatim>\<open>`${Date.now()}_${safeName}.json`\<close>\<close>

definition fileName_of :: "nat \<Rightarrow> jsstring \<Rightarrow> jsstring" where
  "fileName_of t safeName = decimal t @ js ''_'' @ safeName @ js ''.json''"

text \<open>\<^verbatim>\<open>x || 'upload'\<close> and \<^verbatim>\<open>err.message || fallback\<close>\<close>

definition or_default :: "jsstring option \<Rightarrow> jsstring \<Rightarrow> jsstring" where
  "or_default v d = (case js_or v (Some d) of Some s \<Rightarrow> s | None \<Rightarrow> d)"

text \<open>
  \<^verbatim>\<open>POST /upload\<close>. The handler waits on a promise that is resolved only when the
  password middleware calls \<open>next()\<close>; when the middleware answers instead, that answer
  is the response and the handler goes no further. The decoding is commented out in
  the source: the buffer is stored as base64.
\<close>

definition upload_post :: "config \<Rightarrow> clock \<Rightarrow> request \<Rightarrow> server \<Rightarrow> server \<times> response" where
  "upload_post cfg clk req st =
     (case requirePasswordForRequest (SERVER_PASSWORD (env_password cfg))
             (t_check clk) (t_lock clk) req (failedAttempts st) of
        (fa, Send status body) \<Rightarrow> (st\<lparr>failedAttempts := fa\<rparr>, Text status body)
      | (fa, Next) \<Rightarrow>
          (case req_file req of
             None \<Rightarrow> (st\<lparr>failedAttempts := fa\<rparr>, Text 400 (js ''No file uploaded.''))
           | Some f \<Rightarrow>
               (let buf = buffer f;
                    originalName = or_default (originalname f) (js ''upload'');
                    safeName = sanitizeFileName originalName;
                    fileName = fileName_of (t_name clk) safeName;
                    filePath = path_join (STORAGE_DIR (dirname cfg)) fileName;
                    base64Image = toString_base64 buf
                in case writeJson (storage st) filePath
                          (RawDoc fileName originalName (iso clk) base64Image) of
                     Inl e \<Rightarrow>
                       (st\<lparr>failedAttempts := fa\<rparr>,
                        Text 500 (js ''Server Error: ''
                                  @ or_default (Some (error_message e)) (js ''unknown'')))
                   | Inr fs \<Rightarrow>
                       (st\<lparr>failedAttempts := fa, storage := fs\<rparr>,
                        Text 200 (js ''<h3>Upload successful!</h3><p>File saved as: <code>''
                                  @ fileName @ js ''</code></p>'')))))"

text \<open>
  \<^verbatim>\<open>POST /uploadJson\<close>. \<open>from_base64\<close> is \<^verbatim>\<open>Buffer.from(b64, 'base64')\<close>, Node's
  lenient base64 decoder.
\<close>

definition uploadJson_post ::
  "decoder \<Rightarrow> decoder \<Rightarrow> (jsstring \<Rightarrow> byte list) \<Rightarrow>
   config \<Rightarrow> clock \<Rightarrow> request \<Rightarrow> server \<Rightarrow> server \<times> response" where
  "uploadJson_post png_read jpeg_decode from_base64 cfg clk req st =
     (case requirePasswordForRequest (SERVER_PASSWORD (env_password cfg))
             (t_check clk) (t_lock clk) req (failedAttempts st) of
        (fa, Send status body) \<Rightarrow> (st\<lparr>failedAttempts := fa\<rparr>, Text status body)
      | (fa, Next) \<Rightarrow>
          (if \<not> truthy (body_imageBase64 req) \<and> \<not> truthy (body_image req)
           then (st\<lparr>failedAttempts := fa\<rparr>, JsonError 400 (js ''Missing imageBase64 field''))
           else
             (let b64 = or_default (js_or (body_imageBase64 req) (body_image req)) [];
                  buf = from_base64 b64
              in case imageBufferToPixelJSON png_read jpeg_decode buf of
                   Inl e \<Rightarrow>
                     (st\<lparr>failedAttempts := fa\<rparr>,
                      JsonError 500 (or_default (Some (error_message e)) (js ''Server error'')))
                 | Inr result \<Rightarrow>
                     (let providedName = or_default (body_name req) (js ''upload'');
                          safeName = sanitizeFileName providedName;
                          fileName = fileName_of (t_name clk) safeName;
                          filePath = path_join (STORAGE_DIR (dirname cfg)) fileName
                      in case writeJson (storage st) filePath
                                (PixelDoc fileName providedName (iso clk)
                                   (width result) (height result) (pixels result)) of
                           Inl e \<Rightarrow>
                             (st\<lparr>failedAttempts := fa\<rparr>,
                              JsonError 500
                                (or_default (Some (error_message e)) (js ''Server error'')))
                         | Inr fs \<Rightarrow>
                             (st\<lparr>failedAttempts := fa, storage := fs\<rparr>,
                              JsonSuccess fileName)))))"

text \<open>\<^verbatim>\<open>GET /getImage/:name\<close>. \<open>getImage_filePath\<close> is the path the handler works on.\<close>

definition getImage_filePath :: "config \<Rightarrow> request \<Rightarrow> jsstring" where
  "getImage_filePath cfg req =
     (let rawName = params_name req;
          safeName = basename rawName
      in path_join (STORAGE_DIR (dirname cfg)) safeName)"

definition getImage :: "config \<Rightarrow> clock \<Rightarrow> request \<Rightarrow> server \<Rightarrow> server \<times> response" where
  "getImage cfg clk req st =
     (case requirePasswordForRequest (SERVER_PASSWORD (env_password cfg))
             (t_check clk) (t_lock clk) req (failedAttempts st) of
        (fa, Send status body) \<Rightarrow> (st\<lparr>failedAttempts := fa\<rparr>, Text status body)
      | (fa, Next) \<Rightarrow>
          (let filePath = getImage_filePath cfg req
           in if \<not> pathExists (storage st) filePath
              then (st\<lparr>failedAttempts := fa\<rparr>, Text 404 (js ''Not found''))
              else
                (case readJson (storage st) filePath of
                   Inl e \<Rightarrow> (st\<lparr>failedAttempts := fa\<rparr>, Text 500 (js ''Server error''))
                 | Inr data \<Rightarrow> (st\<lparr>failedAttempts := fa\<rparr>, JsonDoc data))))"

text \<open>
  \<^verbatim>\<open>POST /upload\<close> of \<^verbatim>\<open>index.js\<close>: no password, the format is read from the first
  eight and the first two bytes. The file does not declare \<open>PNG\<close>, \<open>jpeg\<close>, \<open>fs\<close> and
  \<open>uuidv4\<close>; the decoders and the identifier are arguments. The line breaks and the
  indentation of the HTML answer are left out.
\<close>

definition index_upload_post ::
  "decoder \<Rightarrow> decoder \<Rightarrow> jsstring \<Rightarrow> request \<Rightarrow> files \<Rightarrow> files \<times> response" where
  "index_upload_post png_read jpeg_decode uuid req fs =
     (case req_file req of
        None \<Rightarrow> (fs, Text 400 (js ''No file uploaded.''))
      | Some f \<Rightarrow>
          (let buf = buffer f;
               header8 = toString_hex buf 0 8;
               isPNG = (header8 = js ''89504e470d0a1a0a'');
               isJPEG = (toString_hex buf 0 2 = js ''ffd8'')
           in if \<not> isPNG \<and> \<not> isJPEG then (fs, Text 400 (js ''Unsupported file type.''))
              else
                (case (if isPNG then png_read buf else jpeg_decode buf) of
                   Inl m \<Rightarrow> (fs, Text 500 (js ''Server error.''))
                 | Inr raw \<Rightarrow>
                     (let result = to_pixel_image raw
                      in case writeJson fs (js ''./storage/'' @ uuid @ js ''.json'')
                                (BareDoc (width result) (height result) (pixels result)) of
                           Inl e \<Rightarrow> (fs, Text 500 (js ''Server error.''))
                         | Inr fs' \<Rightarrow>
                             (fs', Text 200 (js ''<h3>Upload successful!</h3><p>Image ID:</p><code>''
                                             @ uuid @ js ''</code>''))))))"

section \<open>Sample inputs\<close>

text \<open>A client, its requests and its tracker entry, for the examples below.\<close>

definition client7 :: "jsstring option" where
  "client7 = Some (js ''10.0.0.7'')"

definition request_with :: "jsstring option \<Rightarrow> jsstring \<Rightarrow> request" where
  "request_with key name =
     \<lparr>req_ip = client7, remoteAddress = None,
      header_x_api_key = key, header_authorization = None,
      body_password = None, query_password = None,
      body_imageBase64 = None, body_image = None, body_name = None,
      params_name = name, req_file = None\<rparr>"

definition tracker :: "nat \<Rightarrow> nat option \<Rightarrow> attempts" where
  "tracker n lock = Map.empty(client7 \<mapsto> \<lparr>count = n, blockedUntil = lock\<rparr>)"

text \<open>
  A 2 by 2 PNG whose four pixels are opaque red (8-bit RGBA, one IDAT chunk), what
  pngjs reads from it, and decoders that know this one file.
\<close>

definition red_png :: "byte list" where
  "red_png =
     [0x89, 0x50, 0x4E, 0x47, 0x0D, 0x0A, 0x1A, 0x0A, 0x00, 0x00, 0x00, 0x0D, 0x49, 0x48,
      0x44, 0x52, 0x00, 0x00, 0x00, 0x02, 0x00, 0x00, 0x00, 0x02, 0x08, 0x06, 0x00, 0x00,
      0x00, 0x72, 0xB6, 0x0D, 0x24, 0x00, 0x00, 0x00, 0x11, 0x49, 0x44, 0x41, 0x54, 0x78,
      0xDA, 0x63, 0xF8, 0xCF, 0xC0, 0xF0, 0x1F, 0x84, 0x19, 0x60, 0x0C, 0x00, 0x47, 0xCA,
      0x07, 0xF9, 0x1A, 0xB6, 0xF1, 0xA9, 0x00, 0x00, 0x00, 0x00, 0x49, 0x45, 0x4E, 0x44,
      0xAE, 0x42, 0x60, 0x82]"

definition red_data :: "byte list" where
  "red_data =
     [0xFF, 0x00, 0x00, 0xFF, 0xFF, 0x00, 0x00, 0xFF,
      0xFF, 0x00, 0x00, 0xFF, 0xFF, 0x00, 0x00, 0xFF]"

definition red_raw :: raw_image where
  "red_raw = \<lparr>img_width = 2, img_height = 2, img_data = red_data\<rparr>"

definition red_pixel :: pixel where
  "red_pixel = \<lparr>r = Some 0xFF, g = Some 0x00, b = Some 0x00, a = Some 0xFF\<rparr>"

definition sample_png_read :: decoder where
  "sample_png_read buf =
     (if buf = red_png then Inr red_raw else Inl (js ''Invalid file signature''))"

definition sample_jpeg_decode :: decoder where
  "sample_jpeg_decode buf = Inl (js ''SOI not found'')"

text \<open>The first bytes of a GIF file, which is neither PNG nor JPEG.\<close>

definition gif_header :: "byte list" where
  "gif_header = [0x47, 0x49, 0x46, 0x38, 0x39, 0x61]"

definition sample_from_base64 :: "jsstring \<Rightarrow> byte list" where
  "sample_from_base64 s =
     (if s = toString_base64 red_png then red_png
      else if s = toString_base64 gif_header then gif_header
      else [])"

text \<open>A server installed in \<^verbatim>\<open>/app\<close> with an empty storage directory.\<close>

definition app_config :: config where
  "app_config = \<lparr>env_password = None, dirname = js ''/app''\<rparr>"

definition app_clock :: clock where
  "app_clock = \<lparr>t_check = 1700000000000, t_lock = 1700000000000,
                 t_name = 1700000000000, iso = js ''2023-11-14T22:13:20.000Z''\<rparr>"

definition app_server :: server where
  "app_server =
     \<lparr>failedAttempts = Map.empty,
      storage = [js ''/app'' \<mapsto> Dir, js ''/app/storage'' \<mapsto> Dir]\<rparr>"

definition json_upload_request :: request where
  "json_upload_request =
     (request_with (Some (SERVER_PASSWORD None)) [])
       \<lparr>body_imageBase64 := Some (toString_base64 red_png)\<rparr>"

definition gif_json_request :: request where
  "gif_json_request =
     (request_with (Some (SERVER_PASSWORD None)) [])
       \<lparr>body_image := Some (toString_base64 gif_header)\<rparr>"

definition gif_form_request :: request where
  "gif_form_request =
     (request_with None [])
       \<lparr>req_file := Some \<lparr>buffer = gif_header, originalname = Some (js ''a.gif'')\<rparr>\<rparr>"

definition form_upload_request :: request where
  "form_upload_request =
     (request_with (Some (SERVER_PASSWORD None)) [])
       \<lparr>req_file := Some \<lparr>buffer = red_png, originalname = Some (js ''red.png'')\<rparr>\<rparr>"

section \<open>The password guard: properties\<close>

lemma SERVER_PASSWORD_nonempty: "SERVER_PASSWORD env \<noteq> []"
  by (simp add: SERVER_PASSWORD_def js_or_def truthy_def js_def split: option.splits)

lemma client_ip_request_with: "client_ip (request_with key name) = client7"
  by (simp add: client_ip_def request_with_def js_or_def truthy_def client7_def js_def)

lemma provided_password_request_with:
  "provided_password (request_with key name) = (case key of None \<Rightarrow> [] | Some s \<Rightarrow> s)"
  by (simp add: provided_password_def request_with_def js_or_def truthy_def split: option.splits)

lemma tracker_client7: "tracker n lock client7 = Some \<lparr>count = n, blockedUntil = lock\<rparr>"
  by (simp add: tracker_def)

lemma guess_is_wrong:
  "provided_password (request_with (Some (js ''guess'')) name) \<noteq> SERVER_PASSWORD None"
  by (simp add: provided_password_request_with SERVER_PASSWORD_def js_or_def truthy_def js_def)

text \<open>
  C1. While a client's entry holds \<open>blockedUntil\<close> and the clock is before it, the
  middleware answers 429 whatever the request carries and whatever the password is (the
  credential plays no part in the result), and the tracker is returned as it was. So a
  request with the right password is not let through and does not clear the lock.
\<close>

theorem blocked_window:
  assumes "fa (client_ip req) = Some e" and "blockedUntil e = Some until" and "t1 < until"
  shows "requirePasswordForRequest pw t1 t2 req fa =
           (fa, Send 429 (js ''Too many failed password attempts. Try later.''))
         \<and> verdict_of (snd (requirePasswordForRequest pw t1 t2 req fa)) = Some Blocked
         \<and> verdict_of (snd (requirePasswordForRequest pw t1 t2 req fa)) \<noteq> Some Allowed"
  using assms by (simp add: requirePasswordForRequest_def is_blocked_def verdict_of_def)

theorem blocked_window_witness:
  "requirePasswordForRequest (SERVER_PASSWORD None) 6000 6000
       (request_with (Some (SERVER_PASSWORD None)) []) (tracker 5 (Some 3605000)) =
     (tracker 5 (Some 3605000), Send 429 (js ''Too many failed password attempts. Try later.''))
   \<and> verdict_of (snd (requirePasswordForRequest (SERVER_PASSWORD None) 6000 6000
       (request_with (Some (SERVER_PASSWORD None)) []) (tracker 5 (Some 3605000)))) = Some Blocked
   \<and> verdict_of (snd (requirePasswordForRequest (SERVER_PASSWORD None) 6000 6000
       (request_with (Some (SERVER_PASSWORD None)) []) (tracker 5 (Some 3605000)))) \<noteq> Some Allowed"
  by (rule blocked_window [where e = "\<lparr>count = 5, blockedUntil = Some 3605000\<rparr>"
        and until = 3605000])
     (simp_all add: client_ip_request_with tracker_client7)

text \<open>
  Five wrong passwords in a row from a client the tracker does not know leave an entry
  with count 5 and a lock of one hour from the fifth; each of the five is answered 403.
\<close>

lemma five_mismatches_lock:
  "fst (requirePasswordForRequest (SERVER_PASSWORD None) 5000 5000 (request_with (Some (js ''guess'')) [])
    (fst (requirePasswordForRequest (SERVER_PASSWORD None) 4000 4000 (request_with (Some (js ''guess'')) [])
      (fst (requirePasswordForRequest (SERVER_PASSWORD None) 3000 3000 (request_with (Some (js ''guess'')) [])
        (fst (requirePasswordForRequest (SERVER_PASSWORD None) 2000 2000 (request_with (Some (js ''guess'')) [])
          (fst (requirePasswordForRequest (SERVER_PASSWORD None) 1000 1000 (request_with (Some (js ''guess'')) [])
            Map.empty)))))))))
     = tracker 5 (Some 3605000)"
proof -
  have five: "Suc (Suc (Suc (Suc (Suc 0)))) = 5" by simp
  from guess_is_wrong [of "[]"] show ?thesis
    by (simp add: requirePasswordForRequest_def client_ip_request_with is_blocked_def
        PASSWORD_MAX_FAILURES_def PASSWORD_LOCK_DURATION_MS_def tracker_def five)
qed

text \<open>
  C3, as the claim states it, fails: a client with four failures that is not blocked
  sends a wrong password; the count becomes 5, which reaches \<open>PASSWORD_MAX_FAILURES\<close>,
  and the answer is still 403, not 429.
\<close>

theorem fifth_mismatch_not_Blocked:
  "provided_password (request_with (Some (js ''guess'')) []) \<noteq> SERVER_PASSWORD None
   \<and> \<not> is_blocked 1000 (tracker 4 None (client_ip (request_with (Some (js ''guess'')) [])))
   \<and> failureCount (tracker 4 None) (client_ip (request_with (Some (js ''guess'')) [])) + 1
        \<ge> PASSWORD_MAX_FAILURES
   \<and> verdict_of (snd (requirePasswordForRequest (SERVER_PASSWORD None) 1000 1000
         (request_with (Some (js ''guess'')) []) (tracker 4 None))) \<noteq> Some Blocked"
  by (simp add: requirePasswordForRequest_def provided_password_request_with
      client_ip_request_with tracker_client7 is_blocked_def failureCount_def
      PASSWORD_MAX_FAILURES_def verdict_of_def SERVER_PASSWORD_def js_or_def truthy_def js_def)

text \<open>
  C3, amended. A wrong password from a client that is not blocked adds one to the
  client's failure count; when the new count is at least \<open>PASSWORD_MAX_FAILURES\<close> (5),
  \<open>blockedUntil\<close> is set to the clock reading plus one hour, otherwise it stays as it
  was; in both cases this call is answered 403 (\<open>Denied\<close>). A call, whatever its
  password, is answered 429 (\<open>Blocked\<close>) exactly when the client's entry holds a
  \<open>blockedUntil\<close> that the clock has not reached, so never on the call that sets the
  lock; the two answers are different responses.
\<close>

theorem mismatch_counts_and_denies:
  assumes "\<not> is_blocked t1 (fa (client_ip req))" and "provided_password req \<noteq> pw"
  shows "requirePasswordForRequest pw t1 t2 req fa =
           (fa(client_ip req \<mapsto>
                 \<lparr>count = failureCount fa (client_ip req) + 1,
                  blockedUntil =
                    (if failureCount fa (client_ip req) + 1 \<ge> PASSWORD_MAX_FAILURES
                     then Some (t2 + PASSWORD_LOCK_DURATION_MS)
                     else lockOf fa (client_ip req))\<rparr>),
            Send 403 (js ''Forbidden: invalid password.''))
         \<and> verdict_of (snd (requirePasswordForRequest pw t1 t2 req fa)) = Some Denied
         \<and> PASSWORD_MAX_FAILURES = 5 \<and> PASSWORD_LOCK_DURATION_MS = 3600000
         \<and> Send 403 (js ''Forbidden: invalid password.'')
             \<noteq> Send 429 (js ''Too many failed password attempts. Try later.'')
         \<and> (\<forall>pw' t1' t2' req' fa'.
               verdict_of (snd (requirePasswordForRequest pw' t1' t2' req' fa')) = Some Blocked
               \<longleftrightarrow> (\<exists>e until. fa' (client_ip req') = Some e
                      \<and> blockedUntil e = Some until \<and> t1' < until))"
proof -
  have blocked: "verdict_of (snd (requirePasswordForRequest pw' t1' t2' req' fa')) = Some Blocked
      \<longleftrightarrow> (\<exists>e until. fa' (client_ip req') = Some e
              \<and> blockedUntil e = Some until \<and> t1' < until)"
    for pw' t1' t2' req' fa'
    by (auto simp: requirePasswordForRequest_def is_blocked_def verdict_of_def Let_def
        split: option.splits)
  have step: "requirePasswordForRequest pw t1 t2 req fa =
           (fa(client_ip req \<mapsto>
                 \<lparr>count = failureCount fa (client_ip req) + 1,
                  blockedUntil =
                    (if failureCount fa (client_ip req) + 1 \<ge> PASSWORD_MAX_FAILURES
                     then Some (t2 + PASSWORD_LOCK_DURATION_MS)
                     else lockOf fa (client_ip req))\<rparr>),
            Send 403 (js ''Forbidden: invalid password.''))"
  proof (cases "fa (client_ip req)")
    case None
    with assms show ?thesis
      by (simp add: requirePasswordForRequest_def failureCount_def lockOf_def Let_def
          PASSWORD_MAX_FAILURES_def PASSWORD_LOCK_DURATION_MS_def)
  next
    case (Some e)
    obtain n lock where e: "e = \<lparr>count = n, blockedUntil = lock\<rparr>"
      by (cases e) simp
    from assms Some e show ?thesis
      by (simp add: requirePasswordForRequest_def failureCount_def lockOf_def Let_def
          PASSWORD_MAX_FAILURES_def PASSWORD_LOCK_DURATION_MS_def)
  qed
  have "verdict_of (Send 403 (js ''Forbidden: invalid password.'')) = Some Denied"
    by (simp add: verdict_of_def)
  with step blocked show ?thesis
    by (simp add: PASSWORD_MAX_FAILURES_def PASSWORD_LOCK_DURATION_MS_def)
qed

theorem mismatch_counts_and_denies_witness:
  "requirePasswordForRequest (SERVER_PASSWORD None) 1000 1001
       (request_with (Some (js ''guess'')) []) (tracker 4 None) =
     ((tracker 4 None)(client7 \<mapsto> \<lparr>count = 5, blockedUntil = Some 3601001\<rparr>),
      Send 403 (js ''Forbidden: invalid password.''))
   \<and> verdict_of (snd (requirePasswordForRequest (SERVER_PASSWORD None) 1000 1001
         (request_with (Some (js ''guess'')) []) (tracker 4 None))) \<noteq> Some Blocked
   \<and> verdict_of (snd (requirePasswordForRequest (SERVER_PASSWORD None) 1000 1001
         (request_with (Some (SERVER_PASSWORD None)) []) (tracker 4 None))) \<noteq> Some Blocked
   \<and> verdict_of (snd (requirePasswordForRequest (SERVER_PASSWORD None) 2000 2001
         (request_with (Some (SERVER_PASSWORD None)) [])
         ((tracker 4 None)(client7 \<mapsto> \<lparr>count = 5, blockedUntil = Some 3601001\<rparr>))))
       = Some Blocked"
proof -
  have h1: "\<not> is_blocked 1000 (tracker 4 None (client_ip (request_with (Some (js ''guess'')) [])))"
    by (simp add: client_ip_request_with tracker_client7 is_blocked_def)
  note T = mismatch_counts_and_denies [of 1000 "tracker 4 None"
      "request_with (Some (js ''guess'')) []" "SERVER_PASSWORD None" 1001,
      OF h1 guess_is_wrong [of "[]"]]
  note B = T [THEN conjunct2, THEN conjunct2, THEN conjunct2, THEN conjunct2, THEN conjunct2,
      rule_format]
  from T have 1: "requirePasswordForRequest (SERVER_PASSWORD None) 1000 1001
       (request_with (Some (js ''guess'')) []) (tracker 4 None) =
     ((tracker 4 None)(client7 \<mapsto> \<lparr>count = 5, blockedUntil = Some 3601001\<rparr>),
      Send 403 (js ''Forbidden: invalid password.''))"
    by (simp add: client_ip_request_with tracker_client7 failureCount_def
        PASSWORD_MAX_FAILURES_def PASSWORD_LOCK_DURATION_MS_def)
  have 2: "verdict_of (snd (requirePasswordForRequest (SERVER_PASSWORD None) 1000 1001
         (request_with (Some (js ''guess'')) []) (tracker 4 None))) \<noteq> Some Blocked"
    by (simp add: B client_ip_request_with tracker_client7)
  have 3: "verdict_of (snd (requirePasswordForRequest (SERVER_PASSWORD None) 1000 1001
         (request_with (Some (SERVER_PASSWORD None)) []) (tracker 4 None))) \<noteq> Some Blocked"
    by (simp add: B client_ip_request_with tracker_client7)
  have 4: "verdict_of (snd (requirePasswordForRequest (SERVER_PASSWORD None) 2000 2001
         (request_with (Some (SERVER_PASSWORD None)) [])
         ((tracker 4 None)(client7 \<mapsto> \<lparr>count = 5, blockedUntil = Some 3601001\<rparr>))))
       = Some Blocked"
    by (simp add: B client_ip_request_with)
  from 1 2 3 4 show ?thesis by simp
qed

text \<open>
  C6. A client with at least one and fewer than \<open>PASSWORD_MAX_FAILURES\<close> failures and
  no active block sends the server's password: the middleware calls \<open>next()\<close> and the
  client's entry is deleted, so no failure count is left.
\<close>

theorem correct_password_resets:
  assumes "fa (client_ip req) = Some e"
    and "1 \<le> count e" and "count e < PASSWORD_MAX_FAILURES"
    and "\<not> is_blocked t1 (fa (client_ip req))"
    and "provided_password req = SERVER_PASSWORD env"
  shows "requirePasswordForRequest (SERVER_PASSWORD env) t1 t2 req fa
           = (fa(client_ip req := None), Next)
         \<and> verdict_of (snd (requirePasswordForRequest (SERVER_PASSWORD env) t1 t2 req fa))
             = Some Allowed
         \<and> fst (requirePasswordForRequest (SERVER_PASSWORD env) t1 t2 req fa) (client_ip req)
             = None
         \<and> failureCount (fst (requirePasswordForRequest (SERVER_PASSWORD env) t1 t2 req fa))
               (client_ip req) = 0"
  using assms SERVER_PASSWORD_nonempty [of env]
  by (simp add: requirePasswordForRequest_def verdict_of_def failureCount_def)

theorem correct_password_resets_witness:
  "requirePasswordForRequest (SERVER_PASSWORD None) 1000 1000
       (request_with (Some (SERVER_PASSWORD None)) []) (tracker 3 None)
     = ((tracker 3 None)(client7 := None), Next)
   \<and> failureCount (fst (requirePasswordForRequest (SERVER_PASSWORD None) 1000 1000
         (request_with (Some (SERVER_PASSWORD None)) []) (tracker 3 None))) client7 = 0"
  using correct_password_resets [of "tracker 3 None" "request_with (Some (SERVER_PASSWORD None)) []"
      "\<lparr>count = 3, blockedUntil = None\<rparr>" 1000 None 1000]
  by (simp add: client_ip_request_with tracker_client7 provided_password_request_with
      is_blocked_def PASSWORD_MAX_FAILURES_def failureCount_def)

text \<open>
  C8. One call of the middleware either lets the request through and deletes the
  client's entry, or leaves an entry whose count is not below the count before and
  whose \<open>blockedUntil\<close> is still set when it was set before; the entries of other
  clients are not touched. So an entry with a count of at least 5 whose lock has run
  out keeps its count, and one more wrong password sets \<open>blockedUntil\<close> to a full hour
  after the clock reading.
\<close>

theorem tracker_never_weakens:
  "((verdict_of (snd (requirePasswordForRequest pw t1 t2 req fa)) = Some Allowed
      \<and> fst (requirePasswordForRequest pw t1 t2 req fa) (client_ip req) = None)
    \<or> (\<exists>e'. fst (requirePasswordForRequest pw t1 t2 req fa) (client_ip req) = Some e'
          \<and> failureCount fa (client_ip req) \<le> count e'
          \<and> (lockOf fa (client_ip req) \<noteq> None \<longrightarrow> blockedUntil e' \<noteq> None)))
   \<and> (\<forall>other. other \<noteq> client_ip req \<longrightarrow>
          fst (requirePasswordForRequest pw t1 t2 req fa) other = fa other)
   \<and> (\<forall>e until. fa (client_ip req) = Some e \<and> PASSWORD_MAX_FAILURES \<le> count e
          \<and> blockedUntil e = Some until \<and> until \<le> t1 \<and> provided_password req \<noteq> pw \<longrightarrow>
        fst (requirePasswordForRequest pw t1 t2 req fa) (client_ip req)
          = Some \<lparr>count = count e + 1, blockedUntil = Some (t2 + 60 * 60 * 1000)\<rparr>)"
proof (cases "fa (client_ip req)")
  case None
  then show ?thesis
    by (simp add: requirePasswordForRequest_def verdict_of_def failureCount_def lockOf_def
        is_blocked_def Let_def)
next
  case (Some e)
  obtain n lock where e: "e = \<lparr>count = n, blockedUntil = lock\<rparr>"
    by (cases e) simp
  from Some e show ?thesis
    by (simp add: requirePasswordForRequest_def verdict_of_def failureCount_def lockOf_def
        is_blocked_def Let_def PASSWORD_MAX_FAILURES_def PASSWORD_LOCK_DURATION_MS_def
        split: option.splits)
qed

theorem tracker_never_weakens_witness:
  "fst (requirePasswordForRequest (SERVER_PASSWORD None) 6000 6001
        (request_with (Some (js ''guess'')) []) (tracker 5 (Some 5000))) client7
     = Some \<lparr>count = 6, blockedUntil = Some 3606001\<rparr>"
  using tracker_never_weakens [of "SERVER_PASSWORD None" 6000 6001
      "request_with (Some (js ''guess'')) []" "tracker 5 (Some 5000)"]
    guess_is_wrong [of "[]"]
  by (simp add: client_ip_request_with tracker_client7 PASSWORD_MAX_FAILURES_def)

text \<open>
  C9. When the request carries no credential or an empty one, so that the provided
  password is the empty string, a client that is not blocked is answered 403, never let
  through, and its failure count grows by one. This holds for every server password,
  the empty string included.
\<close>

theorem empty_credential_is_mismatch:
  assumes "\<not> is_blocked t1 (fa (client_ip req))" and "provided_password req = []"
  shows "verdict_of (snd (requirePasswordForRequest pw t1 t2 req fa)) = Some Denied
         \<and> verdict_of (snd (requirePasswordForRequest pw t1 t2 req fa)) \<noteq> Some Allowed
         \<and> failureCount (fst (requirePasswordForRequest pw t1 t2 req fa)) (client_ip req)
             = failureCount fa (client_ip req) + 1"
  using assms
  by (simp add: requirePasswordForRequest_def verdict_of_def failureCount_def Let_def
      split: option.splits)

theorem empty_credential_is_mismatch_witness:
  "verdict_of (snd (requirePasswordForRequest [] 1000 1000 (request_with (Some []) [])
      Map.empty)) = Some Denied
   \<and> verdict_of (snd (requirePasswordForRequest [] 1000 1000 (request_with (Some []) [])
      Map.empty)) \<noteq> Some Allowed
   \<and> failureCount (fst (requirePasswordForRequest [] 1000 1000 (request_with (Some []) [])
      Map.empty)) client7 = 1"
  using empty_credential_is_mismatch [of 1000 Map.empty "request_with (Some []) []" "[]" 1000]
  by (simp add: client_ip_request_with provided_password_request_with is_blocked_def
      failureCount_def)

section \<open>String literals\<close>

lemma js_append: "js (s @ t) = js s @ js t"
  by (simp add: js_def)

lemma js_eq_Nil [simp]: "js s = [] \<longleftrightarrow> s = []"
  by (simp add: js_def)

lemma js_inj [simp]: "js s = js t \<longleftrightarrow> s = t"
proof -
  have "inj (\<lambda>c::char. (of_nat (of_char c) :: jschar))"
  proof (rule injI)
    fix x y :: char
    assume "(of_nat (of_char x) :: jschar) = of_nat (of_char y)"
    then have "unat (of_nat (of_char x) :: jschar) = unat (of_nat (of_char y) :: jschar)"
      by simp
    moreover have "of_char x < (256::nat)" "of_char y < (256::nat)" by simp_all
    ultimately have "(of_char x :: nat) = of_char y" by (simp add: unat_of_nat)
    then show "x = y" by simp
  qed
  then show ?thesis unfolding js_def by (simp add: inj_map_eq_map)
qed

section \<open>sanitizeFileName: properties\<close>

lemma safe_not_slash: "is_safe c \<Longrightarrow> c \<noteq> slash"
  by (auto simp: is_safe_def slash_def)

lemma safe_not_space: "is_safe c \<Longrightarrow> \<not> is_space c"
  unfolding is_safe_def is_space_def word_le_nat_alt
  by (auto simp: word_le_nat_alt)

lemma basename_no_slash: "slash \<notin> set (basename p)"
  by (auto simp: basename_def dest: set_takeWhileD)

lemma basename_id: "slash \<notin> set p \<Longrightarrow> basename p = p"
proof -
  assume h: "slash \<notin> set p"
  then have d: "dropWhile (\<lambda>c. c = slash) (rev p) = rev p"
    by (cases "rev p") auto
  from h have t: "takeWhile (\<lambda>c. c \<noteq> slash) (rev p) = rev p"
    by (auto simp: takeWhile_eq_all_conv)
  show ?thesis unfolding basename_def Let_def d t by simp
qed

lemma basename_last_segment:
  assumes "slash \<notin> set x" and "x \<noteq> []"
  shows "basename (d @ slash # x) = x"
proof -
  from assms obtain y ys where rx: "rev x = y # ys" by (cases "rev x") auto
  then have "y \<in> set x" by (metis list.set_intros(1) set_rev)
  with assms have "y \<noteq> slash" by auto
  with rx have d: "dropWhile (\<lambda>c. c = slash) (rev x @ slash # rev d) = rev x @ slash # rev d"
    by simp
  from assms have t: "takeWhile (\<lambda>c. c \<noteq> slash) (rev x @ slash # rev d) = rev x"
    by (subst takeWhile_append2) auto
  have "rev (d @ slash # x) = rev x @ slash # rev d" by simp
  then show ?thesis unfolding basename_def Let_def using d t by simp
qed

lemma replace_spaces_id: "\<forall>c\<in>set s. \<not> is_space c \<Longrightarrow> replace_spaces s = s"
  by (induction s) auto

lemma js_file_safe: "list_all is_safe (js ''file'')"
  by (simp add: js_def is_safe_def)

lemma sanitize_safe: "list_all is_safe (sanitizeFileName x)"
  using js_file_safe by (simp add: sanitizeFileName_def Let_def list_all_iff)

lemma sanitize_nonempty: "sanitizeFileName x \<noteq> []"
  by (simp add: sanitizeFileName_def Let_def)

lemma sanitize_fixed: "list_all is_safe s \<Longrightarrow> s \<noteq> [] \<Longrightarrow> sanitizeFileName s = s"
proof -
  assume s: "list_all is_safe s" and ne: "s \<noteq> []"
  from s have "slash \<notin> set s" using safe_not_slash by (auto simp: list_all_iff)
  then have bn: "basename s = s" by (rule basename_id)
  from s have "replace_spaces s = s"
    by (intro replace_spaces_id) (auto simp: list_all_iff safe_not_space)
  moreover from s have "filter is_safe s = s" by (simp add: list_all_iff)
  ultimately show ?thesis using bn ne by (simp add: sanitizeFileName_def)
qed

lemma sanitize_passwd: "sanitizeFileName (js ''../../etc/passwd'') = js ''passwd''"
  by (simp add: sanitizeFileName_def basename_def js_def slash_def is_space_def is_safe_def)

lemma sanitize_photo:
  "sanitizeFileName (js ''/tmp/my  holiday photo (1).png'') = js ''my_holiday_photo_1.png''"
  by (simp add: sanitizeFileName_def basename_def js_def slash_def is_space_def is_safe_def)

lemma sanitize_slashes: "sanitizeFileName (js ''///'') = js ''file''"
  by (simp add: sanitizeFileName_def basename_def js_def slash_def is_space_def is_safe_def)

text \<open>
  C7. \<open>sanitizeFileName\<close> is a function on all strings (its one loop is proved to
  end). Its result is never empty, holds only characters of \<^verbatim>\<open>[a-zA-Z0-9_.-]\<close>, so
  neither \<open>/\<close> nor \<open>\\<close>, and does not depend on the directories in front of the last
  segment; it is \<open>file\<close> when nothing is left of the name; and sanitising a second time
  changes nothing. For \<^verbatim>\<open>../../etc/passwd\<close> the result is \<open>passwd\<close>.
\<close>

theorem sanitizeFileName_idempotent:
  "sanitizeFileName (sanitizeFileName x) = sanitizeFileName x
   \<and> sanitizeFileName x \<noteq> []
   \<and> list_all is_safe (sanitizeFileName x)
   \<and> slash \<notin> set (sanitizeFileName x) \<and> 0x5C \<notin> set (sanitizeFileName x)
   \<and> (slash \<notin> set y \<and> y \<noteq> [] \<longrightarrow> sanitizeFileName (d @ slash # y) = sanitizeFileName y)
   \<and> (filter is_safe (replace_spaces (basename x)) = [] \<longrightarrow> sanitizeFileName x = js ''file'')
   \<and> sanitizeFileName (js ''../../etc/passwd'') = js ''passwd''
   \<and> slash \<notin> set (sanitizeFileName (js ''../../etc/passwd''))"
proof -
  have safe: "list_all is_safe (sanitizeFileName z)" for z by (rule sanitize_safe)
  have idem: "sanitizeFileName (sanitizeFileName x) = sanitizeFileName x"
    using safe sanitize_nonempty by (rule sanitize_fixed)
  have noslash: "slash \<notin> set (sanitizeFileName z)" for z
    using safe [of z] safe_not_slash by (auto simp: list_all_iff)
  have "\<not> is_safe 0x5C" by (simp add: is_safe_def)
  then have nobackslash: "0x5C \<notin> set (sanitizeFileName x)"
    using safe [of x] by (auto simp: list_all_iff)
  have dirs: "sanitizeFileName (d @ slash # y) = sanitizeFileName y"
    if "slash \<notin> set y" and "y \<noteq> []"
    using that by (simp add: sanitizeFileName_def basename_last_segment basename_id)
  have fallback: "sanitizeFileName x = js ''file''"
    if "filter is_safe (replace_spaces (basename x)) = []"
    using that by (simp add: sanitizeFileName_def)
  from idem sanitize_nonempty safe noslash nobackslash dirs fallback sanitize_passwd
  show ?thesis by blast
qed

theorem sanitizeFileName_idempotent_witness:
  "sanitizeFileName (js ''/tmp/my  holiday photo (1).png'') = js ''my_holiday_photo_1.png''
   \<and> sanitizeFileName (sanitizeFileName (js ''/tmp/my  holiday photo (1).png''))
       = js ''my_holiday_photo_1.png''
   \<and> sanitizeFileName (js ''/tmp'' @ slash # js ''my  holiday photo (1).png'')
       = sanitizeFileName (js ''my  holiday photo (1).png'')
   \<and> sanitizeFileName (js ''///'') = js ''file''"
proof -
  have y: "slash \<notin> set (js ''my  holiday photo (1).png'')"
    "js ''my  holiday photo (1).png'' \<noteq> []"
    by (simp_all add: js_def slash_def)
  have e: "filter is_safe (replace_spaces (basename (js ''///''))) = []"
    by (simp add: basename_def js_def slash_def)
  from sanitizeFileName_idempotent [of "js ''/tmp/my  holiday photo (1).png''"
      "js ''my  holiday photo (1).png''" "js ''/tmp''"]
    sanitizeFileName_idempotent [of "js ''///''" "[]" "[]"] y e
  show ?thesis by (simp add: sanitize_photo)
qed

section \<open>Format detection and decoding: properties\<close>

lemma unat_hexdigit: "n < 16 \<Longrightarrow> unat (hexdigit n) = (if n < 10 then 48 + n else 87 + n)"
  by (simp add: hexdigit_def unat_of_nat del: of_nat_add of_nat_numeral)

lemma hexdigit_inj: "n < 16 \<Longrightarrow> m < 16 \<Longrightarrow> hexdigit n = hexdigit m \<Longrightarrow> n = m"
proof -
  assume n: "n < 16" and m: "m < 16" and eq: "hexdigit n = hexdigit m"
  from eq have "unat (hexdigit n) = unat (hexdigit m)" by simp
  with n m have "(if n < 10 then 48 + n else 87 + n) = (if m < 10 then 48 + m else 87 + m)"
    by (simp only: unat_hexdigit)
  with n m show ?thesis by (simp split: if_splits)
qed

lemma hex_byte_inj: "hex_byte x = hex_byte y \<Longrightarrow> x = y"
proof -
  assume eq: "hex_byte x = hex_byte y"
  have bx: "unat x < 256" using unsigned_less [of x] by simp
  have by': "unat y < 256" using unsigned_less [of y] by simp
  from bx have dx: "unat x div 16 < 16" by arith
  from by' have dy: "unat y div 16 < 16" by arith
  have mx: "unat x mod 16 < 16" and my: "unat y mod 16 < 16" by simp_all
  from eq have "hexdigit (unat x div 16) = hexdigit (unat y div 16)"
    and "hexdigit (unat x mod 16) = hexdigit (unat y mod 16)"
    by (simp_all add: hex_byte_def)
  then have "unat x div 16 = unat y div 16" and "unat x mod 16 = unat y mod 16"
    using hexdigit_inj [OF dx dy] hexdigit_inj [OF mx my] by blast+
  then have "unat x = unat y" by (metis div_mult_mod_eq)
  then show ?thesis by (simp only: word_unat_eq_iff)
qed

lemma hex_concat_inj:
  "concat (map hex_byte xs) = concat (map hex_byte ys) \<Longrightarrow> xs = ys"
proof (induction xs arbitrary: ys)
  case Nil
  then show ?case by (cases ys) (simp_all add: hex_byte_def)
next
  case (Cons x xs)
  then show ?case
  proof (cases ys)
    case Nil
    with Cons.prems show ?thesis by (simp add: hex_byte_def)
  next
    case (Cons y ys')
    with Cons.prems have "hex_byte x @ concat (map hex_byte xs)
        = hex_byte y @ concat (map hex_byte ys')" by simp
    then have "hex_byte x = hex_byte y" and "concat (map hex_byte xs) = concat (map hex_byte ys')"
      by (simp_all add: hex_byte_def)
    with Cons.IH Cons show ?thesis by (simp add: hex_byte_inj)
  qed
qed

lemma hex_concat_eq_iff:
  "concat (map hex_byte xs) = concat (map hex_byte ys) \<longleftrightarrow> xs = ys"
  by (auto dest: hex_concat_inj)

lemma hex_take: "take (2 * n) (concat (map hex_byte xs)) = concat (map hex_byte (take n xs))"
proof (induction xs arbitrary: n)
  case Nil
  then show ?case by simp
next
  case (Cons x xs)
  show ?case
  proof (cases n)
    case 0
    then show ?thesis by simp
  next
    case (Suc k)
    with Cons.IH [of k] show ?thesis by (simp add: hex_byte_def)
  qed
qed

lemma png_literal: "js ''89504e470d0a1a0a'' = concat (map hex_byte PNG_MAGIC)"
  by (simp add: js_def PNG_MAGIC_def hex_byte_def hexdigit_def)

lemma jpeg_literal: "js ''ffd8ff'' = concat (map hex_byte JPEG_MAGIC)"
  by (simp add: js_def JPEG_MAGIC_def hex_byte_def hexdigit_def)

lemma ffd8_literal: "js ''ffd8'' = concat (map hex_byte JPEG_MAGIC2)"
  by (simp add: js_def JPEG_MAGIC2_def hex_byte_def hexdigit_def)

lemma toString_hex_0: "toString_hex buf 0 n = concat (map hex_byte (take n buf))"
  by (simp add: toString_hex_def)

lemma isPNG_iff: "toString_hex buf 0 8 = js ''89504e470d0a1a0a'' \<longleftrightarrow> take 8 buf = PNG_MAGIC"
  by (simp only: toString_hex_0 png_literal hex_concat_eq_iff)

lemma isJPEG_iff:
  "startsWith (toString_hex buf 0 4) (js ''ffd8ff'') \<longleftrightarrow> take 3 buf = JPEG_MAGIC"
proof -
  have "length (concat (map hex_byte JPEG_MAGIC)) = 2 * 3"
    by (simp add: JPEG_MAGIC_def hex_byte_def)
  then have "take (length (concat (map hex_byte JPEG_MAGIC))) (concat (map hex_byte (take 4 buf)))
      = concat (map hex_byte (take 3 (take 4 buf)))"
    by (simp only: hex_take)
  also have "take 3 (take 4 buf) = take 3 buf" by simp
  finally show ?thesis
    by (simp only: startsWith_def toString_hex_0 jpeg_literal hex_concat_eq_iff)
qed

lemma isJPEG2_iff: "toString_hex buf 0 2 = js ''ffd8'' \<longleftrightarrow> take 2 buf = JPEG_MAGIC2"
  by (simp only: toString_hex_0 ffd8_literal hex_concat_eq_iff)

lemma pixel_loop_step:
  "i < length d \<Longrightarrow>
   pixel_loop d i acc =
     pixel_loop d (i + 4)
       (acc @ [\<lparr>r = at_index d i, g = at_index d (i + 1),
                b = at_index d (i + 2), a = at_index d (i + 3)\<rparr>])"
  by (subst pixel_loop.simps) simp

lemma pixel_loop_stop: "\<not> i < length d \<Longrightarrow> pixel_loop d i acc = acc"
  by (subst pixel_loop.simps) simp

lemma quarter_step: "i < n \<Longrightarrow> Suc ((n - (i + 4) + 3) div 4) = (n - i + 3) div 4"
proof -
  assume "i < (n::nat)"
  then obtain k where n: "n = i + Suc k" by (metis less_imp_Suc_add add_Suc_right)
  show ?thesis
  proof (cases "k < 3")
    case True
    with n show ?thesis by simp
  next
    case False
    then obtain j where "k = j + 3" by (metis add.commute le_Suc_ex not_less)
    with n show ?thesis by simp
  qed
qed

lemma pixel_loop_length:
  "length (pixel_loop d i acc) = length acc + (length d - i + 3) div 4"
proof (induction d i acc rule: pixel_loop.induct)
  case (1 d i acc)
  show ?case
  proof (cases "i < length d")
    case True
    with "1.IH" have "length (pixel_loop d i acc)
        = length acc + Suc ((length d - (i + 4) + 3) div 4)"
      by (simp add: pixel_loop_step)
    with True show ?thesis by (simp only: quarter_step)
  next
    case False
    then show ?thesis by (simp add: pixel_loop_stop)
  qed
qed

lemma to_pixel_image_length:
  "length (img_data raw) = 4 * img_width raw * img_height raw \<Longrightarrow>
   length (pixels (to_pixel_image raw)) = width (to_pixel_image raw) * height (to_pixel_image raw)"
  by (simp add: to_pixel_image_def pixel_loop_length)

lemma take8_red_png: "take 8 red_png = PNG_MAGIC"
  by (simp add: red_png_def PNG_MAGIC_def)

lemma red_pixels:
  "pixel_loop red_data 0 [] = [red_pixel, red_pixel, red_pixel, red_pixel]"
  by (simp add: red_data_def red_pixel_def pixel_loop_step pixel_loop_stop at_index_def)

lemma to_pixel_image_red:
  "to_pixel_image red_raw =
     \<lparr>width = 2, height = 2, pixels = [red_pixel, red_pixel, red_pixel, red_pixel]\<rparr>"
  by (simp add: to_pixel_image_def red_raw_def red_pixels)

lemma guard_passes:
  assumes "\<not> is_blocked t1 (fa (client_ip req))"
    and "provided_password req = SERVER_PASSWORD env"
  shows "requirePasswordForRequest (SERVER_PASSWORD env) t1 t2 req fa
           = (fa(client_ip req := None), Next)"
  using assms SERVER_PASSWORD_nonempty [of env]
  by (simp add: requirePasswordForRequest_def)

lemma or_default_Some: "s \<noteq> [] \<Longrightarrow> or_default (Some s) d = s"
  by (simp add: or_default_def js_or_def truthy_def)

lemma or_default_None: "or_default None d = d"
  by (simp add: or_default_def js_or_def truthy_def)

lemma b64_red_png:
  "toString_base64 red_png =
     js ''iVBORw0KGgoAAAANSUhEUgAAAAIAAAACCAYAAABytg0kAAAAEUlEQVR42mP4z8DwH4QZYAwAR8oH+Rq28akAAAAASUVORK5CYII=''"
  by (simp add: red_png_def js_def b64char_def)

lemma b64_gif_header: "toString_base64 gif_header = js ''R0lGODlh''"
  by (simp add: gif_header_def js_def b64char_def)

lemma sample_from_base64_simps:
  "sample_from_base64 (toString_base64 red_png) = red_png"
  "sample_from_base64 (toString_base64 gif_header) = gif_header"
  by (simp_all add: sample_from_base64_def b64_red_png b64_gif_header)

text \<open>
  C4. A buffer whose first eight bytes are not the PNG signature and whose first three
  bytes are not \<open>FF D8 FF\<close> makes \<open>imageBufferToPixelJSON\<close> throw its own
  \<open>Unsupported file type\<close> error, whatever the decoders are (they are not consulted).
  The function has no state; in \<^verbatim>\<open>/uploadJson\<close> the error becomes a 500 response and
  the files stay as they were. The \<^verbatim>\<open>/upload\<close> of \<^verbatim>\<open>index.js\<close> tests two bytes,
  \<open>FF D8\<close>, for JPEG; a buffer that fails its two tests is answered 400 and nothing is
  written.
\<close>

theorem unsupported_format:
  assumes "take 8 buf \<noteq> PNG_MAGIC"
  shows "(take 3 buf \<noteq> JPEG_MAGIC \<longrightarrow>
            imageBufferToPixelJSON png_read jpeg_decode buf = Inl UnsupportedFileType)
         \<and> (take 3 buf \<noteq> JPEG_MAGIC
              \<and> requirePasswordForRequest (SERVER_PASSWORD (env_password cfg))
                   (t_check clk) (t_lock clk) req (failedAttempts st) = (fa, Next)
              \<and> (truthy (body_imageBase64 req) \<or> truthy (body_image req))
              \<and> from_base64 (or_default (js_or (body_imageBase64 req) (body_image req)) []) = buf
              \<longrightarrow>
            uploadJson_post png_read jpeg_decode from_base64 cfg clk req st
              = (st\<lparr>failedAttempts := fa\<rparr>,
                 JsonError 500 (js ''Unsupported file type (not PNG/JPEG)'')))
         \<and> (take 2 buf \<noteq> JPEG_MAGIC2 \<and> req_file req' = Some f \<and> buffer f = buf \<longrightarrow>
            index_upload_post png_read jpeg_decode uuid req' fs
              = (fs, Text 400 (js ''Unsupported file type.'')))"
proof -
  have 1: "take 3 buf \<noteq> JPEG_MAGIC \<Longrightarrow>
      imageBufferToPixelJSON png_read jpeg_decode buf = Inl UnsupportedFileType"
    using assms by (simp add: imageBufferToPixelJSON_def isPNG_iff isJPEG_iff)
  have 2: "uploadJson_post png_read jpeg_decode from_base64 cfg clk req st
              = (st\<lparr>failedAttempts := fa\<rparr>,
                 JsonError 500 (js ''Unsupported file type (not PNG/JPEG)''))"
    if "take 3 buf \<noteq> JPEG_MAGIC"
      and "requirePasswordForRequest (SERVER_PASSWORD (env_password cfg))
                   (t_check clk) (t_lock clk) req (failedAttempts st) = (fa, Next)"
      and "truthy (body_imageBase64 req) \<or> truthy (body_image req)"
      and "from_base64 (or_default (js_or (body_imageBase64 req) (body_image req)) []) = buf"
    using that 1 by (auto simp: uploadJson_post_def error_message_def or_default_Some)
  have 3: "index_upload_post png_read jpeg_decode uuid req' fs
              = (fs, Text 400 (js ''Unsupported file type.''))"
    if "take 2 buf \<noteq> JPEG_MAGIC2" and "req_file req' = Some f" and "buffer f = buf"
    using that assms by (simp add: index_upload_post_def isPNG_iff isJPEG2_iff)
  from 1 2 3 show ?thesis by blast
qed

theorem unsupported_format_witness:
  "imageBufferToPixelJSON sample_png_read sample_jpeg_decode gif_header = Inl UnsupportedFileType
   \<and> uploadJson_post sample_png_read sample_jpeg_decode sample_from_base64
        app_config app_clock gif_json_request app_server
      = (app_server, JsonError 500 (js ''Unsupported file type (not PNG/JPEG)''))
   \<and> index_upload_post sample_png_read sample_jpeg_decode (js ''id-1'') gif_form_request
        (storage app_server)
      = (storage app_server, Text 400 (js ''Unsupported file type.''))"
proof -
  have m: "take 8 gif_header \<noteq> PNG_MAGIC" "take 3 gif_header \<noteq> JPEG_MAGIC"
    "take 2 gif_header \<noteq> JPEG_MAGIC2"
    by (simp_all add: gif_header_def PNG_MAGIC_def JPEG_MAGIC_def JPEG_MAGIC2_def)
  have q: "client_ip gif_json_request = client7"
    "provided_password gif_json_request = SERVER_PASSWORD None"
    "body_imageBase64 gif_json_request = None"
    "body_image gif_json_request = Some (toString_base64 gif_header)"
    by (simp_all add: gif_json_request_def client_ip_def provided_password_def request_with_def
        js_or_def truthy_def client7_def SERVER_PASSWORD_def)
  have g: "requirePasswordForRequest (SERVER_PASSWORD (env_password app_config))
      (t_check app_clock) (t_lock app_clock) gif_json_request (failedAttempts app_server)
        = (Map.empty, Next)"
    by (subst guard_passes) (simp_all add: q app_config_def app_server_def is_blocked_def)
  have t: "truthy (body_imageBase64 gif_json_request) \<or> truthy (body_image gif_json_request)"
    by (simp add: q truthy_def b64_gif_header)
  have d: "sample_from_base64 (or_default (js_or (body_imageBase64 gif_json_request)
      (body_image gif_json_request)) []) = gif_header"
    by (simp add: q js_or_def truthy_def or_default_Some b64_gif_header sample_from_base64_def
        b64_red_png)
  have f: "req_file gif_form_request = Some \<lparr>buffer = gif_header, originalname = Some (js ''a.gif'')\<rparr>"
    by (simp add: gif_form_request_def request_with_def)
  have s: "app_server\<lparr>failedAttempts := Map.empty\<rparr> = app_server"
    by (simp add: app_server_def)
  from unsupported_format [OF m(1), of sample_png_read sample_jpeg_decode app_config app_clock
      gif_json_request app_server Map.empty sample_from_base64 gif_form_request
      "\<lparr>buffer = gif_header, originalname = Some (js ''a.gif'')\<rparr>" "js ''id-1''" "storage app_server"]
    m g t d f s
  show ?thesis by simp
qed

text \<open>
  C5. For a buffer that starts with the eight bytes of the PNG signature,
  \<open>imageBufferToPixelJSON\<close> never throws its \<open>Unsupported file type\<close> error: it throws
  what \<^verbatim>\<open>PNG.sync.read\<close> throws, or returns the image built from what
  \<^verbatim>\<open>PNG.sync.read\<close> returns. pngjs returns four bytes for each pixel; then the image has
  exactly \<open>width * height\<close> pixels.
\<close>

theorem png_never_unsupported:
  assumes "take 8 buf = PNG_MAGIC"
    and "\<forall>img. png_read buf = Inr img \<longrightarrow>
           length (img_data img) = 4 * img_width img * img_height img"
  shows "imageBufferToPixelJSON png_read jpeg_decode buf \<noteq> Inl UnsupportedFileType
         \<and> (case imageBufferToPixelJSON png_read jpeg_decode buf of
               Inl e \<Rightarrow> (\<exists>m. e = CodecError m \<and> png_read buf = Inl m)
             | Inr im \<Rightarrow> length (pixels im) = width im * height im)"
  using assms
  by (auto simp: imageBufferToPixelJSON_def isPNG_iff to_pixel_image_length split: sum.splits)

theorem png_never_unsupported_witness:
  "imageBufferToPixelJSON sample_png_read sample_jpeg_decode red_png \<noteq> Inl UnsupportedFileType
   \<and> imageBufferToPixelJSON sample_png_read sample_jpeg_decode red_png
       = Inr \<lparr>width = 2, height = 2, pixels = [red_pixel, red_pixel, red_pixel, red_pixel]\<rparr>
   \<and> length [red_pixel, red_pixel, red_pixel, red_pixel] = 2 * 2"
proof -
  have h: "\<forall>img. sample_png_read red_png = Inr img \<longrightarrow>
      length (img_data img) = 4 * img_width img * img_height img"
    by (simp add: sample_png_read_def red_raw_def red_data_def)
  have "imageBufferToPixelJSON sample_png_read sample_jpeg_decode red_png
       = Inr \<lparr>width = 2, height = 2, pixels = [red_pixel, red_pixel, red_pixel, red_pixel]\<rparr>"
    by (simp add: imageBufferToPixelJSON_def isPNG_iff take8_red_png sample_png_read_def
        to_pixel_image_red)
  with png_never_unsupported [where buf = red_png and png_read = sample_png_read
      and jpeg_decode = sample_jpeg_decode, OF take8_red_png h]
  show ?thesis by simp
qed

section \<open>The routes: properties\<close>

lemma decimal_small: "n < 10 \<Longrightarrow> decimal n = [of_nat (48 + n)]"
  by (subst decimal.simps) simp

lemma decimal_big: "\<not> n < 10 \<Longrightarrow> decimal n = decimal (n div 10) @ [of_nat (48 + n mod 10)]"
  by (subst decimal.simps) simp

lemma decimal_sample: "decimal 1700000000000 = js ''1700000000000''"
  by (simp add: decimal_small decimal_big js_def)

lemma digit_safe: "k < 10 \<Longrightarrow> is_safe (of_nat (48 + k))"
proof -
  assume k: "k < 10"
  then have "unat (of_nat (48 + k) :: jschar) = 48 + k"
    by (simp add: unat_of_nat del: of_nat_add of_nat_numeral)
  with k have "0x30 \<le> (of_nat (48 + k) :: jschar) \<and> (of_nat (48 + k) :: jschar) \<le> 0x39"
    by (simp add: word_le_nat_alt del: of_nat_add of_nat_numeral)
  then show ?thesis by (simp add: is_safe_def del: of_nat_add of_nat_numeral)
qed

lemma decimal_safe: "list_all is_safe (decimal n)"
proof (induction n rule: decimal.induct)
  case (1 n)
  show ?case
  proof (cases "n < 10")
    case True
    then show ?thesis by (simp add: decimal_small digit_safe del: of_nat_add of_nat_numeral)
  next
    case False
    with "1.IH" show ?thesis
      by (simp add: decimal_big digit_safe del: of_nat_add of_nat_numeral)
  qed
qed

lemma fileName_safe: "list_all is_safe s \<Longrightarrow> list_all is_safe (fileName_of t s)"
  using decimal_safe [of t] by (simp add: fileName_of_def js_def is_safe_def)

lemma basename_fileName:
  "basename (fileName_of t (sanitizeFileName x)) = fileName_of t (sanitizeFileName x)"
proof -
  have "list_all is_safe (fileName_of t (sanitizeFileName x))"
    by (rule fileName_safe) (rule sanitize_safe)
  then have "slash \<notin> set (fileName_of t (sanitizeFileName x))"
    using safe_not_slash by (auto simp: list_all_iff)
  then show ?thesis by (rule basename_id)
qed

lemma storage_dir_app: "STORAGE_DIR (js ''/app'') = js ''/app/storage''"
  by (simp add: STORAGE_DIR_def path_join_def normalize_def normalize_step_def js_def slash_def)

lemma join_dotdot: "path_join (js ''/app/storage'') (js ''..'') = js ''/app''"
  by (simp add: path_join_def normalize_def normalize_step_def js_def slash_def)

lemma join_upload:
  "path_join (js ''/app/storage'') (js ''1700000000000_upload.json'')
     = js ''/app/storage/1700000000000_upload.json''"
  by (simp add: path_join_def normalize_def normalize_step_def js_def slash_def)

lemma join_red_png:
  "path_join (js ''/app/storage'') (js ''1700000000000_red.png.json'')
     = js ''/app/storage/1700000000000_red.png.json''"
  by (simp add: path_join_def normalize_def normalize_step_def js_def slash_def)

lemma basename_x_dotdot: "basename (js ''x/..'') = js ''..''"
  by (simp add: basename_def js_def slash_def)

lemma sanitize_upload: "sanitizeFileName (js ''upload'') = js ''upload''"
  by (simp add: sanitizeFileName_def basename_def js_def slash_def is_space_def is_safe_def)

lemma sanitize_red_png: "sanitizeFileName (js ''red.png'') = js ''red.png''"
  by (simp add: sanitizeFileName_def basename_def js_def slash_def is_space_def is_safe_def)

lemma fileName_upload:
  "fileName_of 1700000000000 (js ''upload'') = js ''1700000000000_upload.json''"
  by (simp add: fileName_of_def decimal_sample js_append [symmetric])

lemma fileName_red_png:
  "fileName_of 1700000000000 (js ''red.png'') = js ''1700000000000_red.png.json''"
  by (simp add: fileName_of_def decimal_sample js_append [symmetric])

lemma app_server_lookup:
  "storage app_server (js ''/app'') = Some Dir"
  "storage app_server (js ''/app/storage/1700000000000_upload.json'') = None"
  "storage app_server (js ''/app/storage/1700000000000_red.png.json'') = None"
  "failedAttempts app_server = Map.empty"
  by (simp_all add: app_server_def)

lemma decode_red:
  assumes "take 8 buf = PNG_MAGIC" and "png_read buf = Inr red_raw"
  shows "imageBufferToPixelJSON png_read jpeg_decode buf =
           Inr \<lparr>width = 2, height = 2, pixels = [red_pixel, red_pixel, red_pixel, red_pixel]\<rparr>"
  using assms by (simp add: imageBufferToPixelJSON_def isPNG_iff to_pixel_image_red)

lemma getImage_reads:
  assumes "\<not> is_blocked (t_check clk) (failedAttempts st (client_ip req))"
    and "provided_password req = SERVER_PASSWORD (env_password cfg)"
    and "storage st (getImage_filePath cfg req) = Some (File d)"
  shows "getImage cfg clk req st
           = (st\<lparr>failedAttempts := (failedAttempts st)(client_ip req := None)\<rparr>, JsonDoc d)"
  using assms
  by (simp add: getImage_def guard_passes pathExists_def readJson_def)

lemma uploadJson_post_attempts:
  assumes "\<not> is_blocked (t_check clk) (failedAttempts st (client_ip req))"
    and "provided_password req = SERVER_PASSWORD (env_password cfg)"
  shows "failedAttempts (fst (uploadJson_post png_read jpeg_decode from_base64 cfg clk req st))
           = (failedAttempts st)(client_ip req := None)"
  using assms
  by (simp add: uploadJson_post_def guard_passes Let_def split: sum.splits)

lemma json_upload_request_simps:
  "client_ip json_upload_request = client7"
  "provided_password json_upload_request = SERVER_PASSWORD None"
  "body_imageBase64 json_upload_request = Some (toString_base64 red_png)"
  "body_name json_upload_request = None"
  by (simp_all add: json_upload_request_def client_ip_def provided_password_def request_with_def
      js_or_def truthy_def client7_def SERVER_PASSWORD_def)

text \<open>
  The file name of a record is made of characters of one byte each, and it is the last
  segment of the record's path; so a record is written when its name has at most
  \<open>NAME_MAX\<close> characters and its path is not a directory.
\<close>

lemma safe_ascii: "is_safe c \<Longrightarrow> c < 0x80"
  unfolding is_safe_def word_le_nat_alt word_less_nat_alt by auto

lemma safe_unit_bytes: "is_safe c \<Longrightarrow> unit_bytes c = 1"
  by (simp add: unit_bytes_def safe_ascii)

lemma safe_not_surrogate: "is_safe c \<Longrightarrow> \<not> 0xD800 \<le> c"
  unfolding is_safe_def word_le_nat_alt by auto

lemma safe_utf8_length: "list_all is_safe s \<Longrightarrow> utf8_length s = length s"
  by (induction s rule: utf8_length.induct)
     (simp_all add: safe_unit_bytes safe_not_surrogate)

lemma split_on_nonempty: "split_on d x \<noteq> []"
  by (induction x) (auto split: list.splits)

lemma split_on_append:
  "d \<notin> set y \<Longrightarrow> split_on d (x @ d # y) = split_on d x @ [y]"
proof (induction x)
  case Nil
  have "split_on d y = [y]" if "d \<notin> set y" for y :: "'a list"
    using that by (induction y) auto
  with Nil show ?case by simp
next
  case (Cons c x)
  obtain s ss where "split_on d x = s # ss"
    using split_on_nonempty [of d x] by (cases "split_on d x") auto
  with Cons show ?case by simp
qed

lemma split_on_plain: "d \<notin> set y \<Longrightarrow> split_on d y = [y]"
  by (induction y) auto

lemma intercalate_snoc:
  "intercalate sep (xs @ [y]) = (if xs = [] then y else intercalate sep xs @ sep @ y)"
  by (induction sep xs rule: intercalate.induct) auto

lemma basename_after_slash:
  assumes "slash \<notin> set y" and "y \<noteq> []" and "x = [] \<or> last x = slash"
  shows "basename (x @ y) = y"
proof (cases "x = []")
  case True
  with assms show ?thesis by (simp add: basename_id)
next
  case False
  with assms(3) obtain x' where "x = x' @ [slash]" by (metis append_butlast_last_id)
  with assms show ?thesis using basename_last_segment [of y x'] by simp
qed

lemma normalize_keeps_last_segment:
  assumes y: "slash \<notin> set y" "y \<noteq> []" "y \<noteq> js ''.''" "y \<noteq> js ''..''"
    and segs: "split_on slash p = ss @ [y]" and p: "p \<noteq> []" "last p = last y"
  shows "\<exists>z. normalize p = z @ y \<and> (z = [] \<or> last z = slash)"
proof -
  let ?stk = "fold (normalize_step (hd p \<noteq> slash)) ss []"
  have f: "fold (normalize_step (hd p \<noteq> slash)) (split_on slash p) [] = y # ?stk"
    using y by (simp add: segs normalize_step_def)
  from y p have nt: "last p \<noteq> slash" by (metis last_in_set)
  let ?q = "intercalate [slash] (rev ?stk @ [y])"
  have q: "?q = (if rev ?stk = [] then y else intercalate [slash] (rev ?stk) @ [slash] @ y)"
    by (rule intercalate_snoc)
  with y have qne: "?q \<noteq> []" by (simp split: if_splits)
  have n: "normalize p = (if hd p = slash then slash # ?q else ?q)"
    using p nt qne by (simp add: normalize_def Let_def f)
  let ?pre = "if hd p = slash then [slash] else []"
  show ?thesis
  proof (cases "rev ?stk = []")
    case True
    with q have qy: "?q = y" by simp
    have "normalize p = ?pre @ y" unfolding n qy by simp
    moreover have "?pre = [] \<or> last ?pre = slash" by simp
    ultimately show ?thesis by (rule_tac x = ?pre in exI) simp
  next
    case False
    with q have qy: "?q = intercalate [slash] (rev ?stk) @ [slash] @ y" by simp
    let ?z = "?pre @ intercalate [slash] (rev ?stk) @ [slash]"
    have "normalize p = ?z @ y" unfolding n qy by simp
    moreover have "last ?z = slash" by simp
    ultimately show ?thesis by (rule_tac x = ?z in exI) simp
  qed
qed


lemma basename_path_join:
  assumes y: "slash \<notin> set y" "y \<noteq> []" "y \<noteq> js ''.''" "y \<noteq> js ''..''"
  shows "basename (path_join x y) = y"
proof -
  obtain p ss where pj: "path_join x y = normalize p"
    and ss: "split_on slash p = ss @ [y]" and p: "p \<noteq> []" "last p = last y"
  proof (cases "x = []")
    case True
    with y have "path_join x y = normalize y" by (simp add: path_join_def)
    moreover from y have "split_on slash y = [] @ [y]" by (simp add: split_on_plain)
    ultimately show ?thesis using y that [of y "[]"] by simp
  next
    case False
    with y have "path_join x y = normalize (x @ slash # y)" by (simp add: path_join_def)
    moreover from y have "split_on slash (x @ slash # y) = split_on slash x @ [y]"
      by (simp add: split_on_append)
    ultimately show ?thesis using y that [of "x @ slash # y" "split_on slash x"] by simp
  qed
  from normalize_keeps_last_segment [OF y ss p]
  obtain z where "normalize p = z @ y" and "z = [] \<or> last z = slash" by blast
  with y pj show ?thesis by (simp add: basename_after_slash)
qed

lemma fileName_not_dots:
  "fileName_of t s \<noteq> []" "fileName_of t s \<noteq> js ''.''" "fileName_of t s \<noteq> js ''..''"
proof -
  have "length (fileName_of t s) \<ge> 6" by (simp add: fileName_of_def js_def)
  then show "fileName_of t s \<noteq> []" "fileName_of t s \<noteq> js ''.''" "fileName_of t s \<noteq> js ''..''"
    by (auto simp: js_def)
qed

lemma basename_record_path:
  "basename (path_join x (fileName_of t (sanitizeFileName n)))
     = fileName_of t (sanitizeFileName n)"
proof -
  have "list_all is_safe (fileName_of t (sanitizeFileName n))"
    by (rule fileName_safe) (rule sanitize_safe)
  then have "slash \<notin> set (fileName_of t (sanitizeFileName n))"
    using safe_not_slash by (auto simp: list_all_iff)
  then show ?thesis using fileName_not_dots by (rule basename_path_join)
qed

lemma record_name_bytes:
  "utf8_length (basename (path_join x (fileName_of t (sanitizeFileName n))))
     = length (fileName_of t (sanitizeFileName n))"
  by (simp add: basename_record_path safe_utf8_length fileName_safe sanitize_safe)

lemma writeJson_record:
  assumes "length (fileName_of t (sanitizeFileName n)) \<le> NAME_MAX"
    and "fs (path_join x (fileName_of t (sanitizeFileName n))) \<noteq> Some Dir"
  shows "writeJson fs (path_join x (fileName_of t (sanitizeFileName n))) d
           = Inr (fs(path_join x (fileName_of t (sanitizeFileName n)) \<mapsto> File d))"
  using assms
  by (simp add: writeJson_def record_name_bytes split: option.splits node.splits)


lemma writeJson_too_long:
  "NAME_MAX < utf8_length (basename p) \<Longrightarrow>
   writeJson fs p d = Inl (FsError (js ''ENAMETOOLONG: name too long''))"
  by (simp add: writeJson_def)


text \<open>
  \<^verbatim>\<open>POST /uploadJson\<close> decodes. A buffer with the PNG signature that pngjs decodes to
  the 2 by 2 red image is uploaded by a client that passes the password check, the
  record's name is not too long and its path is not a directory. Then the response
  names the file, the record written there has \<open>width\<close> 2, \<open>height\<close> 2 and the four
  pixels \<open>{r:255,g:0,b:0,a:255}\<close>, and \<^verbatim>\<open>GET /getImage/:name\<close> with the returned name, by
  a client that passes the password check, returns that same record and leaves the
  files as they are.
\<close>

lemma uploadJson_red_png_roundtrip:
  fixes png_read jpeg_decode :: decoder
    and from_base64 :: "jsstring \<Rightarrow> byte list"
    and cfg :: config and clk clk' :: clock and req req' :: request and st :: server
  defines "pw \<equiv> SERVER_PASSWORD (env_password cfg)"
    and "providedName \<equiv> or_default (body_name req) (js ''upload'')"
  defines "fileName \<equiv> fileName_of (t_name clk) (sanitizeFileName providedName)"
  defines "filePath \<equiv> path_join (STORAGE_DIR (dirname cfg)) fileName"
    and "stored \<equiv> PixelDoc fileName providedName (iso clk) 2 2
                      [red_pixel, red_pixel, red_pixel, red_pixel]"
    and "result \<equiv> uploadJson_post png_read jpeg_decode from_base64 cfg clk req st"
  assumes open1: "\<not> is_blocked (t_check clk) (failedAttempts st (client_ip req))"
    and pw1: "provided_password req = pw"
    and img: "truthy (body_imageBase64 req) \<or> truthy (body_image req)"
    and buf: "from_base64 (or_default (js_or (body_imageBase64 req) (body_image req)) []) = buf"
    and magic: "take 8 buf = PNG_MAGIC"
    and decoded: "png_read buf = Inr red_raw"
    and short: "length fileName \<le> NAME_MAX"
    and nodir: "storage st filePath \<noteq> Some Dir"
    and open2: "\<not> is_blocked (t_check clk') (failedAttempts (fst result) (client_ip req'))"
    and pw2: "provided_password req' = pw"
    and name: "params_name req' = fileName"
  shows "snd result = JsonSuccess fileName
         \<and> storage (fst result) = (storage st)(filePath \<mapsto> File stored)
         \<and> doc_width stored = Some 2 \<and> doc_height stored = Some 2
         \<and> doc_pixels stored = Some [red_pixel, red_pixel, red_pixel, red_pixel]
         \<and> red_pixel = \<lparr>r = Some 255, g = Some 0, b = Some 0, a = Some 255\<rparr>
         \<and> snd (getImage cfg clk' req' (fst result)) = JsonDoc stored
         \<and> storage (fst (getImage cfg clk' req' (fst result))) = storage (fst result)"
proof -
  have w: "writeJson (storage st) filePath stored = Inr ((storage st)(filePath \<mapsto> File stored))"
    using short nodir unfolding filePath_def fileName_def by (rule writeJson_record)
  have res: "result =
      (st\<lparr>failedAttempts := (failedAttempts st)(client_ip req := None),
           storage := (storage st)(filePath \<mapsto> File stored)\<rparr>, JsonSuccess fileName)"
    using open1 pw1 img buf magic decoded w
    unfolding result_def uploadJson_post_def pw_def
    by (auto simp: guard_passes decode_red Let_def providedName_def [symmetric]
        fileName_def [symmetric] filePath_def [symmetric] stored_def [symmetric])
  have path: "getImage_filePath cfg req' = filePath"
    using name
    by (simp add: getImage_filePath_def filePath_def fileName_def basename_fileName)
  have "storage (fst result) (getImage_filePath cfg req') = Some (File stored)"
    by (simp add: res path)
  with open2 pw2 have "getImage cfg clk' req' (fst result)
      = ((fst result)\<lparr>failedAttempts := (failedAttempts (fst result))(client_ip req' := None)\<rparr>,
         JsonDoc stored)"
    unfolding pw_def by (rule getImage_reads)
  with res show ?thesis
    by (simp add: stored_def doc_width_def doc_height_def doc_pixels_def red_pixel_def)
qed

lemma uploadJson_red_png_roundtrip_example:
  "snd (uploadJson_post sample_png_read sample_jpeg_decode sample_from_base64
          app_config app_clock json_upload_request app_server)
     = JsonSuccess (js ''1700000000000_upload.json'')
   \<and> snd (getImage app_config app_clock
            (request_with (Some (SERVER_PASSWORD None)) (js ''1700000000000_upload.json''))
            (fst (uploadJson_post sample_png_read sample_jpeg_decode sample_from_base64
                    app_config app_clock json_upload_request app_server)))
     = JsonDoc (PixelDoc (js ''1700000000000_upload.json'') (js ''upload'')
                  (js ''2023-11-14T22:13:20.000Z'') 2 2
                  [red_pixel, red_pixel, red_pixel, red_pixel])"
proof -
  let ?req' = "request_with (Some (SERVER_PASSWORD None)) (js ''1700000000000_upload.json'')"
  have b64: "toString_base64 red_png \<noteq> []" by (simp add: b64_red_png)
  have name: "fileName_of (t_name app_clock)
      (sanitizeFileName (or_default (body_name json_upload_request) (js ''upload'')))
        = js ''1700000000000_upload.json''"
    by (simp add: json_upload_request_simps or_default_None app_clock_def
        sanitize_upload fileName_upload)
  have h1: "\<not> is_blocked (t_check app_clock)
      (failedAttempts app_server (client_ip json_upload_request))"
    by (simp add: app_server_lookup is_blocked_def)
  have h2: "provided_password json_upload_request = SERVER_PASSWORD (env_password app_config)"
    by (simp add: json_upload_request_simps app_config_def)
  have h3: "truthy (body_imageBase64 json_upload_request) \<or> truthy (body_image json_upload_request)"
    by (simp add: json_upload_request_simps truthy_def b64)
  have h4: "sample_from_base64 (or_default (js_or (body_imageBase64 json_upload_request)
      (body_image json_upload_request)) []) = red_png"
    by (simp add: json_upload_request_simps js_or_def truthy_def b64 or_default_Some
        sample_from_base64_simps)
  have h5: "take 8 red_png = PNG_MAGIC" by (rule take8_red_png)
  have h6: "sample_png_read red_png = Inr red_raw" by (simp add: sample_png_read_def)
  have h7: "storage app_server
      (path_join (STORAGE_DIR (dirname app_config))
         (fileName_of (t_name app_clock)
            (sanitizeFileName (or_default (body_name json_upload_request) (js ''upload'')))))
        \<noteq> Some Dir"
    unfolding name by (simp add: app_config_def storage_dir_app join_upload app_server_lookup)
  have h7': "length (fileName_of (t_name app_clock)
      (sanitizeFileName (or_default (body_name json_upload_request) (js ''upload''))))
        \<le> NAME_MAX"
    unfolding name by (simp add: js_def NAME_MAX_def)
  have h8: "\<not> is_blocked (t_check app_clock)
      (failedAttempts (fst (uploadJson_post sample_png_read sample_jpeg_decode sample_from_base64
          app_config app_clock json_upload_request app_server)) (client_ip ?req'))"
    by (simp add: uploadJson_post_attempts [OF h1 h2] app_server_lookup is_blocked_def)
  have h9: "provided_password ?req' = SERVER_PASSWORD (env_password app_config)"
    by (simp add: provided_password_request_with app_config_def)
  have h10: "params_name ?req' = fileName_of (t_name app_clock)
      (sanitizeFileName (or_default (body_name json_upload_request) (js ''upload'')))"
    unfolding name by (simp add: request_with_def)
  from uploadJson_red_png_roundtrip [where jpeg_decode = sample_jpeg_decode,
      OF h1 h2 h3 h4 h5 h6 h7' h7 h8 h9 h10]
  show ?thesis
    unfolding name
    by (simp add: json_upload_request_simps or_default_None app_clock_def)
qed

text \<open>
  \<^verbatim>\<open>POST /upload\<close> does not decode, whatever the file is: when the password check is
  passed, the name is not too long and the path is not a directory, the record written
  holds the file's bytes in base64.
\<close>

lemma upload_post_stores_raw:
  fixes cfg :: config and clk :: clock and req :: request and st :: server
    and f :: uploaded_file
  defines "originalName \<equiv> or_default (originalname f) (js ''upload'')"
  defines "fileName \<equiv> fileName_of (t_name clk) (sanitizeFileName originalName)"
  defines "filePath \<equiv> path_join (STORAGE_DIR (dirname cfg)) fileName"
  assumes "\<not> is_blocked (t_check clk) (failedAttempts st (client_ip req))"
    and "provided_password req = SERVER_PASSWORD (env_password cfg)"
    and "req_file req = Some f"
    and "length fileName \<le> NAME_MAX"
    and "storage st filePath \<noteq> Some Dir"
  shows "upload_post cfg clk req st =
           (st\<lparr>failedAttempts := (failedAttempts st)(client_ip req := None),
               storage := (storage st)(filePath \<mapsto>
                 File (RawDoc fileName originalName (iso clk) (toString_base64 (buffer f))))\<rparr>,
            Text 200 (js ''<h3>Upload successful!</h3><p>File saved as: <code>''
                      @ fileName @ js ''</code></p>''))"
  using assms(4-8)
  unfolding upload_post_def filePath_def fileName_def originalName_def
  by (simp add: guard_passes writeJson_record Let_def)

text \<open>
  C2. The claim fails for \<^verbatim>\<open>POST /upload\<close>. The 2 by 2 red PNG is uploaded with the
  right password and the upload succeeds, but the record written holds the file's bytes
  in base64 and has no \<open>width\<close>, \<open>height\<close> or \<open>pixels\<close>: the call of
  \<open>imageBufferToPixelJSON\<close> under the comment \<^verbatim>\<open>convert and save pixel JSON\<close> is commented
  out. \<^verbatim>\<open>POST /uploadJson\<close> does what the claim says
  (\<open>uploadJson_red_png_roundtrip\<close>).
\<close>

theorem form_upload_stores_raw:
  "take 8 red_png = PNG_MAGIC
   \<and> snd (upload_post app_config app_clock form_upload_request app_server)
       = Text 200 (js ''<h3>Upload successful!</h3><p>File saved as: <code>1700000000000_red.png.json</code></p>'')
   \<and> storage (fst (upload_post app_config app_clock form_upload_request app_server))
         (js ''/app/storage/1700000000000_red.png.json'')
       = Some (File (RawDoc (js ''1700000000000_red.png.json'') (js ''red.png'')
                       (js ''2023-11-14T22:13:20.000Z'') (toString_base64 red_png)))
   \<and> doc_width (RawDoc (js ''1700000000000_red.png.json'') (js ''red.png'')
                       (js ''2023-11-14T22:13:20.000Z'') (toString_base64 red_png)) \<noteq> Some 2
   \<and> doc_height (RawDoc (js ''1700000000000_red.png.json'') (js ''red.png'')
                       (js ''2023-11-14T22:13:20.000Z'') (toString_base64 red_png)) \<noteq> Some 2
   \<and> doc_pixels (RawDoc (js ''1700000000000_red.png.json'') (js ''red.png'')
                       (js ''2023-11-14T22:13:20.000Z'') (toString_base64 red_png)) = None"
proof -
  let ?f = "\<lparr>buffer = red_png, originalname = Some (js ''red.png'')\<rparr>"
  have q: "client_ip form_upload_request = client7"
    "provided_password form_upload_request = SERVER_PASSWORD None"
    "req_file form_upload_request = Some ?f"
    by (simp_all add: form_upload_request_def client_ip_def provided_password_def
        request_with_def js_or_def truthy_def client7_def SERVER_PASSWORD_def)
  have n: "fileName_of (t_name app_clock)
      (sanitizeFileName (or_default (originalname ?f) (js ''upload'')))
        = js ''1700000000000_red.png.json''"
    by (simp add: or_default_Some sanitize_red_png app_clock_def fileName_red_png)
  have p: "path_join (STORAGE_DIR (dirname app_config)) (js ''1700000000000_red.png.json'')
      = js ''/app/storage/1700000000000_red.png.json''"
    by (simp add: app_config_def storage_dir_app join_red_png)
  have h1: "\<not> is_blocked (t_check app_clock)
      (failedAttempts app_server (client_ip form_upload_request))"
    by (simp add: app_server_lookup is_blocked_def)
  have h2: "provided_password form_upload_request = SERVER_PASSWORD (env_password app_config)"
    by (simp add: q app_config_def)
  have h4: "length (fileName_of (t_name app_clock)
      (sanitizeFileName (or_default (originalname ?f) (js ''upload'')))) \<le> NAME_MAX"
    unfolding n by (simp add: js_def NAME_MAX_def)
  have h5: "storage app_server (path_join (STORAGE_DIR (dirname app_config))
      (fileName_of (t_name app_clock)
        (sanitizeFileName (or_default (originalname ?f) (js ''upload''))))) \<noteq> Some Dir"
    unfolding n p by (simp add: app_server_lookup)
  from upload_post_stores_raw [OF h1 h2 q(3) h4 h5]
  show ?thesis
    unfolding n p
    by (simp add: take8_red_png doc_width_def doc_height_def doc_pixels_def
        js_append [symmetric] app_clock_def or_default_Some)
qed

lemma getImage_missing:
  assumes "\<not> is_blocked (t_check clk) (failedAttempts st (client_ip req))"
    and "provided_password req = SERVER_PASSWORD (env_password cfg)"
    and "storage st (getImage_filePath cfg req) = None"
  shows "getImage cfg clk req st
           = (st\<lparr>failedAttempts := (failedAttempts st)(client_ip req := None)\<rparr>,
              Text 404 (js ''Not found''))"
  using assms by (simp add: getImage_def guard_passes pathExists_def)

text \<open>
  C10. The handler works on \<open>path.join(STORAGE_DIR, path.basename(name))\<close> and nothing
  else, and a missing path is answered 404 (\<open>getImage_missing\<close>). But the base name of
  \<^verbatim>\<open>x/..\<close> is \<^verbatim>\<open>..\<close>: with the server in \<^verbatim>\<open>/app\<close> the path becomes \<^verbatim>\<open>/app\<close>, the
  parent of the storage directory; it exists, so the answer is not 404, and reading it
  as JSON fails, which gives 500.
\<close>

theorem getImage_dotdot:
  "basename (js ''x/..'') = js ''..''
   \<and> STORAGE_DIR (dirname app_config) = js ''/app/storage''
   \<and> getImage_filePath app_config
         (request_with (Some (SERVER_PASSWORD None)) (js ''x/..'')) = js ''/app''
   \<and> snd (getImage app_config app_clock
              (request_with (Some (SERVER_PASSWORD None)) (js ''x/..'')) app_server)
       = Text 500 (js ''Server error'')
   \<and> snd (getImage app_config app_clock
              (request_with (Some (SERVER_PASSWORD None)) (js ''x/..'')) app_server)
       \<noteq> Text 404 (js ''Not found'')"
proof -
  let ?req = "request_with (Some (SERVER_PASSWORD None)) (js ''x/..'')"
  have g: "requirePasswordForRequest (SERVER_PASSWORD (env_password app_config))
      (t_check app_clock) (t_lock app_clock) ?req (failedAttempts app_server)
        = ((failedAttempts app_server)(client_ip ?req := None), Next)"
    by (rule guard_passes)
       (simp_all add: client_ip_request_with provided_password_request_with
          app_server_lookup is_blocked_def app_config_def)
  have sd: "STORAGE_DIR (dirname app_config) = js ''/app/storage''"
    by (simp add: app_config_def storage_dir_app)
  have p: "getImage_filePath app_config ?req = js ''/app''"
    by (simp add: getImage_filePath_def request_with_def basename_x_dotdot sd join_dotdot)
  have rd: "readJson (storage app_server) (js ''/app'')
      = Inl (FsError (js ''EISDIR: illegal operation on a directory''))"
    by (simp add: readJson_def app_server_lookup)
  have e: "pathExists (storage app_server) (js ''/app'')"
    by (simp add: pathExists_def app_server_lookup)
  have "snd (getImage app_config app_clock ?req app_server) = Text 500 (js ''Server error'')"
    unfolding getImage_def g by (simp add: p rd e)
  with sd p show ?thesis
    by (simp add: basename_x_dotdot)
qed

end
